theory Spec2Isabelle
  imports Main "HOL-Library.Sublist"
begin

section \<open>The world the script runs in\<close>

text \<open>
  \<^verbatim>\<open>pki_playground.py\<close> is a sequence of filesystem operations, prints, prompts and
  calls of external programs. It is embedded as state passing over a \<open>world\<close>: the
  directory tree, what has been written to the two output streams, what is left to read on
  standard input, and the list of the external processes launched so far. What the script
  cannot decide by itself (its effective user id, the parsed command line, how an external
  process ends, what a template renders to) is read from an \<open>env\<close>.

  A leading underscore of a Python name is dropped (\<open>_check_files\<close> is \<open>check_files\<close>); the
  private \<open>_handle_cli_arguments\<close> is \<open>handle_cli_arguments'\<close>.
\<close>

datatype node = File string | Dir

datatype oserror = FileExistsError | FileNotFoundError | IsADirectoryError | NotADirectoryError

datatype exn =
    SystemExit nat
  | CalledProcessError nat "string list"
  | KeyboardInterrupt
  | OSError oserror string
  | EOFError
  | TemplateError

text \<open>
  How a launched child process ends, as \<open>subprocess.run\<close> sees it: it returns an exit
  status, the wait is interrupted from the keyboard, or the program cannot be started.
\<close>

datatype outcome = Exited nat | Interrupted | Unavailable

record args =
  pki_init :: "string option"
  create_server_cert :: "(string \<times> string) option"
  create_deployment :: "(string \<times> string \<times> string \<times> string) option"
  start_deployment_arg :: "string option"
  unlock :: "string option"

record env =
  euid :: nat
  argc :: nat
  parse_args :: "exn + args"
  help_text :: string
  proc :: "string list \<Rightarrow> outcome"
  produced :: "string list \<Rightarrow> string \<Rightarrow> string"
  jinja_accepts :: "string \<Rightarrow> bool"
  jinja_render :: "string \<Rightarrow> (string \<times> string) list \<Rightarrow> string option"

record world =
  fs :: "string list \<rightharpoonup> node"
  stdout :: "string list"
  stderr :: "string list"
  stdin :: "string list"
  trace :: "(string list \<times> string option) list"

type_synonym 'a prog = "world \<Rightarrow> (exn + 'a) \<times> world"

definition ret :: "'a \<Rightarrow> 'a prog" where
  "ret a = (\<lambda>w. (Inr a, w))"

definition raise :: "exn \<Rightarrow> 'a prog" where
  "raise e = (\<lambda>w. (Inl e, w))"

definition and_then :: "'a prog \<Rightarrow> ('a \<Rightarrow> 'b prog) \<Rightarrow> 'b prog" where
  "and_then m f = (\<lambda>w. case m w of (Inl e, w') \<Rightarrow> (Inl e, w') | (Inr a, w') \<Rightarrow> f a w')"

definition seq :: "'a prog \<Rightarrow> 'b prog \<Rightarrow> 'b prog" where
  "seq m n = and_then m (\<lambda>_. n)"

text \<open>\<^verbatim>\<open>try: m  except KeyboardInterrupt: h\<close> and the same for \<open>CalledProcessError\<close>.\<close>

definition except_KeyboardInterrupt :: "'a prog \<Rightarrow> 'a prog \<Rightarrow> 'a prog" where
  "except_KeyboardInterrupt m h =
     (\<lambda>w. case m w of (Inl KeyboardInterrupt, w') \<Rightarrow> h w' | r \<Rightarrow> r)"

definition except_CalledProcessError :: "'a prog \<Rightarrow> 'a prog \<Rightarrow> 'a prog" where
  "except_CalledProcessError m h =
     (\<lambda>w. case m w of (Inl (CalledProcessError n c), w') \<Rightarrow> h w' | r \<Rightarrow> r)"

subsection \<open>Paths\<close>

text \<open>
  The directory tree maps keys, which are lists of names, to nodes. The working directory
  of the script is the empty list and the root is the list of the one name \<open>/\<close>; the
  root, the working directory and the directories above it are always there.

  A path string is looked up as the operating system does it, without symbolic links: from
  the root when it starts with a slash and from the working directory otherwise, one
  component after the other. Every component, also an empty one, \<open>.\<close> and \<open>..\<close>, is looked
  up in a directory: stepping through a name that is absent or that is a file fails the
  lookup, so \<open>ghost/../web\<close> names nothing when there is no directory \<open>ghost\<close>. The empty
  string names nothing. \<open>./pkis/x\<close> and \<open>pkis/x\<close> name the same node.
\<close>

fun components :: "string \<Rightarrow> string list" where
  "components [] = [[]]"
| "components (c # cs) =
     (if c = CHR ''/'' then [] # components cs
      else (case components cs of [] \<Rightarrow> [[c]] | x # xs \<Rightarrow> (c # x) # xs))"

definition walk :: "string list \<Rightarrow> string \<Rightarrow> string list" where
  "walk acc c =
     (if c = [] \<or> c = ''.'' then acc
      else if c = ''..'' then
        (if acc = [''/''] then acc
         else if acc = [] \<or> last acc = ''..'' then acc @ [c]
         else butlast acc)
      else acc @ [c])"

definition origin :: "string \<Rightarrow> string list" where
  "origin p = (if take 1 p = ''/'' then [''/''] else [])"

definition node_at :: "(string list \<rightharpoonup> node) \<Rightarrow> string list \<Rightarrow> node option" where
  "node_at t k = (if set k \<subseteq> {''/'', ''..''} then Some Dir else t k)"

text \<open>The key reached from the directory \<open>at\<close> along a list of components, if any.\<close>

fun descend :: "(string list \<rightharpoonup> node) \<Rightarrow> string list \<Rightarrow> string list \<Rightarrow> string list option" where
  "descend t at [] = Some at"
| "descend t at (c # cs) =
     (if node_at t at = Some Dir then descend t (walk at c) cs else None)"

definition locate :: "(string list \<rightharpoonup> node) \<Rightarrow> string \<Rightarrow> string list option" where
  "locate t p = (if p = [] then None else descend t (origin p) (components p))"

definition lookup :: "(string list \<rightharpoonup> node) \<Rightarrow> string \<Rightarrow> node option" where
  "lookup t p = (case locate t p of None \<Rightarrow> None | Some k \<Rightarrow> node_at t k)"

text \<open>A name given to a child process is relative to the directory the process runs in.\<close>

definition locate_in ::
    "(string list \<rightharpoonup> node) \<Rightarrow> string option \<Rightarrow> string \<Rightarrow> string list option" where
  "locate_in t cwd name =
     (case cwd of
        None \<Rightarrow> locate t name
      | Some d \<Rightarrow>
          if take 1 name = ''/'' then locate t name
          else if name = [] then None
          else (case locate t d of
                  None \<Rightarrow> None
                | Some k \<Rightarrow> descend t k (components name)))"

text \<open>
  The key a path names when every directory on the way is there: the same steps, taken
  without looking at the tree.
\<close>

definition resolve :: "string \<Rightarrow> string list" where
  "resolve p = foldl walk (origin p) (components p)"

text \<open>\<open>os.path.join\<close> of two arguments (\<open>posixpath\<close>).\<close>

definition os_path_join :: "string \<Rightarrow> string \<Rightarrow> string" where
  "os_path_join a b =
     (if take 1 b = ''/'' then b
      else if a = [] \<or> last a = CHR ''/'' then a @ b
      else a @ ''/'' @ b)"

subsection \<open>Text files\<close>

text \<open>
  Every file is opened in text mode with the default \<open>newline=None\<close>: on reading, \<open>\r\n\<close>
  and a lone \<open>\r\<close> become \<open>\n\<close>; on writing, \<open>\n\<close> is written as it is (POSIX). A file's
  content is its decoded text.
\<close>

abbreviation LF :: char where "LF \<equiv> CHR 0x0A"
abbreviation CR :: char where "CR \<equiv> CHR 0x0D"

fun universal_newlines :: "string \<Rightarrow> string" where
  "universal_newlines [] = []"
| "universal_newlines [c] = (if c = CR then [LF] else [c])"
| "universal_newlines (c # d # cs) =
     (if c = CR then (if d = LF then LF # universal_newlines cs
                      else LF # universal_newlines (d # cs))
      else c # universal_newlines (d # cs))"

text \<open>\<^verbatim>\<open>for line in f\<close>: the lines of a text, each with its terminating newline.\<close>

fun iter_lines :: "string \<Rightarrow> string list" where
  "iter_lines [] = []"
| "iter_lines (c # cs) =
     (if c = LF then [c] # iter_lines cs
      else (case iter_lines cs of [] \<Rightarrow> [[c]] | l # ls \<Rightarrow> (c # l) # ls))"

subsection \<open>Primitives of the Python runtime\<close>

definition print :: "string \<Rightarrow> unit prog" where
  "print s = (\<lambda>w. (Inr (), w\<lparr>stdout := stdout w @ [s]\<rparr>))"

definition sys_exit :: "nat \<Rightarrow> 'a prog" where
  "sys_exit n = raise (SystemExit n)"

text \<open>\<open>input(prompt)\<close> writes the prompt and reads one line; end of input raises.\<close>

definition input :: "string \<Rightarrow> string prog" where
  "input prompt =
     (\<lambda>w. case stdin w of
        [] \<Rightarrow> (Inl EOFError, w\<lparr>stdout := stdout w @ [prompt]\<rparr>)
      | l # ls \<Rightarrow> (Inr l, w\<lparr>stdout := stdout w @ [prompt], stdin := ls\<rparr>))"


text \<open>
  \<open>os.path.exists\<close> and \<open>os.path.isfile\<close> answer \<open>False\<close> when the lookup fails. The
  calls that raise on a failed lookup raise \<open>FileNotFoundError\<close> here, also where the
  system reports that a name on the way is not a directory.
\<close>

definition path_exists :: "world \<Rightarrow> string \<Rightarrow> bool" where
  "path_exists w p = (lookup (fs w) p \<noteq> None)"

definition is_file :: "world \<Rightarrow> string \<Rightarrow> bool" where
  "is_file w p = (case lookup (fs w) p of Some (File c) \<Rightarrow> True | _ \<Rightarrow> False)"

definition os_path_exists :: "string \<Rightarrow> bool prog" where
  "os_path_exists p = (\<lambda>w. (Inr (path_exists w p), w))"

definition os_path_isfile :: "string \<Rightarrow> bool prog" where
  "os_path_isfile p = (\<lambda>w. (Inr (is_file w p), w))"

text \<open>
  \<open>os.mkdir(p)\<close>: slashes at the end of the name of the directory to make are
  ignored; the name must be free and be looked up in a directory.
\<close>

definition strip_slashes :: "string \<Rightarrow> string" where
  "strip_slashes p =
     (let q = rev (dropWhile (\<lambda>c. c = CHR ''/'') (rev p)) in if q = [] then p else q)"

definition os_mkdir :: "string \<Rightarrow> unit prog" where
  "os_mkdir p =
     (\<lambda>w. case locate (fs w) (strip_slashes p) of
        None \<Rightarrow> (Inl (OSError FileNotFoundError p), w)
      | Some k \<Rightarrow>
          if node_at (fs w) k \<noteq> None then (Inl (OSError FileExistsError p), w)
          else (Inr (), w\<lparr>fs := (fs w)(k \<mapsto> Dir)\<rparr>))"

text \<open>\<open>open(p).read()\<close>.\<close>

definition read_text :: "string \<Rightarrow> string prog" where
  "read_text p =
     (\<lambda>w. case lookup (fs w) p of
        None \<Rightarrow> (Inl (OSError FileNotFoundError p), w)
      | Some Dir \<Rightarrow> (Inl (OSError IsADirectoryError p), w)
      | Some (File c) \<Rightarrow> (Inr (universal_newlines c), w))"

text \<open>
  \<open>open(p, "w")\<close> creates the file or empties it, \<open>open(p, "a")\<close> creates it or keeps it;
  \<open>write\<close> on the open file adds text at its end. The open file is named by its path,
  looked up again at the write: between the two the script changes nothing in the tree.
\<close>

definition open_w :: "string \<Rightarrow> unit prog" where
  "open_w p =
     (\<lambda>w. case locate (fs w) p of
        None \<Rightarrow> (Inl (OSError FileNotFoundError p), w)
      | Some k \<Rightarrow>
          if node_at (fs w) k = Some Dir then (Inl (OSError IsADirectoryError p), w)
          else (Inr (), w\<lparr>fs := (fs w)(k \<mapsto> File [])\<rparr>))"

definition open_a :: "string \<Rightarrow> unit prog" where
  "open_a p =
     (\<lambda>w. case locate (fs w) p of
        None \<Rightarrow> (Inl (OSError FileNotFoundError p), w)
      | Some k \<Rightarrow>
          (case node_at (fs w) k of
             Some Dir \<Rightarrow> (Inl (OSError IsADirectoryError p), w)
           | Some (File c) \<Rightarrow> (Inr (), w)
           | None \<Rightarrow> (Inr (), w\<lparr>fs := (fs w)(k \<mapsto> File [])\<rparr>)))"

definition file_write :: "string \<Rightarrow> string \<Rightarrow> unit prog" where
  "file_write p s =
     (\<lambda>w. case locate (fs w) p of
        None \<Rightarrow> (Inl (OSError FileNotFoundError p), w)
      | Some k \<Rightarrow>
          (case node_at (fs w) k of
             Some (File c) \<Rightarrow> (Inr (), w\<lparr>fs := (fs w)(k \<mapsto> File (c @ s))\<rparr>)
           | _ \<Rightarrow> (Inl (OSError FileNotFoundError p), w)))"

subsection \<open>External programs\<close>

text \<open>
  The programs the script launches are not part of it. How each run ends is read from the
  environment (\<open>proc\<close>). What a run that exits with status 0 leaves behind is taken from
  its command line: a file for every argument that follows \<open>-out\<close>, \<open>-keyout\<close> or
  \<open>-destkeystore\<close>, with the content the environment gives (\<open>produced\<close>), where the
  lookup of the name finds a place for it. A run that fails or is interrupted leaves the
  tree as it was. \<open>rm\<close> and \<open>mv\<close> of regular files are modelled as they work.
\<close>

definition output_flags :: "string list" where
  "output_flags = [''-out'', ''-keyout'', ''-destkeystore'']"

fun outputs :: "string list \<Rightarrow> string list" where
  "outputs (a # b # rest) =
     (if a \<in> set output_flags then b # outputs rest else outputs (b # rest))"
| "outputs _ = []"

definition put_file ::
    "string list option \<Rightarrow> string \<Rightarrow> (string list \<rightharpoonup> node) \<Rightarrow> (string list \<rightharpoonup> node)" where
  "put_file key c t =
     (case key of
        None \<Rightarrow> t
      | Some k \<Rightarrow> if node_at t k = Some Dir then t else t(k \<mapsto> File c))"

fun put_outputs :: "env \<Rightarrow> string list \<Rightarrow> string option \<Rightarrow> string list \<Rightarrow>
    (string list \<rightharpoonup> node) \<Rightarrow> (string list \<rightharpoonup> node)" where
  "put_outputs e argv cwd [] t = t"
| "put_outputs e argv cwd (name # names) t =
     put_outputs e argv cwd names (put_file (locate_in t cwd name) (produced e argv name) t)"

text \<open>The exit status and the effect of one program run.\<close>

definition run_program :: "env \<Rightarrow> string list \<Rightarrow> string option \<Rightarrow>
    (string list \<rightharpoonup> node) \<Rightarrow> outcome \<times> (string list \<rightharpoonup> node)" where
  "run_program e argv cwd t =
     (case argv of
        [prog, a] \<Rightarrow>
          if prog = ''rm'' then
            (case locate_in t cwd a of
               None \<Rightarrow> (Exited 1, t)
             | Some k \<Rightarrow>
                 (case node_at t k of
                    Some (File c) \<Rightarrow> (Exited 0, t(k := None))
                  | _ \<Rightarrow> (Exited 1, t)))
          else (proc e argv, if proc e argv = Exited 0
                             then put_outputs e argv cwd (outputs argv) t else t)
      | [prog, a, b] \<Rightarrow>
          if prog = ''mv'' then
            (case (locate_in t cwd a, locate_in t cwd b) of
               (Some ka, Some kb) \<Rightarrow>
                 if ka = kb then (Exited 1, t)
                 else (case (node_at t ka, node_at t kb) of
                    (Some (File c), Some (File d)) \<Rightarrow>
                      (Exited 0, (t(ka := None))(kb \<mapsto> File c))
                  | (Some (File c), None) \<Rightarrow>
                      (Exited 0, (t(ka := None))(kb \<mapsto> File c))
                  | _ \<Rightarrow> (Exited 1, t))
             | _ \<Rightarrow> (Exited 1, t))
          else (proc e argv, if proc e argv = Exited 0
                             then put_outputs e argv cwd (outputs argv) t else t)
      | _ \<Rightarrow> (proc e argv, if proc e argv = Exited 0
                           then put_outputs e argv cwd (outputs argv) t else t))"

text \<open>
  \<open>subprocess.run(argv, cwd=cwd, check=check)\<close>: the directory to run in must be a
  directory; a launched process is recorded in \<open>trace\<close>; with \<open>check\<close> a nonzero exit
  status raises \<open>CalledProcessError\<close>.
\<close>

definition subprocess_run :: "env \<Rightarrow> string list \<Rightarrow> string option \<Rightarrow> bool \<Rightarrow> nat prog" where
  "subprocess_run e argv cwd check =
     (\<lambda>w. case (case cwd of None \<Rightarrow> Some Dir | Some d \<Rightarrow> lookup (fs w) d) of
        None \<Rightarrow> (Inl (OSError FileNotFoundError (case cwd of None \<Rightarrow> [] | Some d \<Rightarrow> d)), w)
      | Some (File c) \<Rightarrow>
          (Inl (OSError NotADirectoryError (case cwd of None \<Rightarrow> [] | Some d \<Rightarrow> d)), w)
      | Some Dir \<Rightarrow>
         (case run_program e argv cwd (fs w) of
            (Unavailable, t) \<Rightarrow> (Inl (OSError FileNotFoundError (concat (take 1 argv))), w)
          | (Interrupted, t) \<Rightarrow> (Inl KeyboardInterrupt, w\<lparr>trace := trace w @ [(argv, cwd)]\<rparr>)
          | (Exited n, t) \<Rightarrow>
              (if check \<and> n \<noteq> 0 then Inl (CalledProcessError n argv) else Inr n,
               w\<lparr>fs := t, trace := trace w @ [(argv, cwd)]\<rparr>)))"

subsection \<open>Templates\<close>

text \<open>
  \<open>jinja2.Template(text)\<close> and \<open>template.render(...)\<close> belong to a library: whether a
  text is accepted as a template and what it renders to is read from the environment.
\<close>

definition jinja2_Template :: "env \<Rightarrow> string \<Rightarrow> string prog" where
  "jinja2_Template e text = (if jinja_accepts e text then ret text else raise TemplateError)"

definition template_render :: "env \<Rightarrow> string \<Rightarrow> (string \<times> string) list \<Rightarrow> string prog" where
  "template_render e template bindings =
     (case jinja_render e template bindings of
        None \<Rightarrow> raise TemplateError
      | Some text \<Rightarrow> ret text)"

section \<open>The script\<close>

definition PKI_DIR :: string where "PKI_DIR = ''pkis''"
definition DEP_DIR :: string where "DEP_DIR = ''deployments''"

definition executed_as_root :: "env \<Rightarrow> bool prog" where
  "executed_as_root e = ret (euid e = 0)"

fun check_files :: "string list \<Rightarrow> unit prog" where
  "check_files [] = ret ()"
| "check_files (file_path # files) =
     and_then (os_path_isfile file_path) (\<lambda>is_file.
       if \<not> is_file
       then seq (print (''Error: missing file '' @ file_path @ ''!'')) (sys_exit 1)
       else check_files files)"

subsection \<open>\<open>_generate_root_certs\<close>\<close>

definition openssl_root_command :: "string \<Rightarrow> string list" where
  "openssl_root_command pki_name =
     [''openssl'', ''req'', ''-x509'', ''-sha256'', ''-days'', ''356'', ''-nodes'',
      ''-newkey'', ''rsa:2048'', ''-subj'', ''/CN='' @ pki_name @ ''.com/C=UA/L=Kiev'',
      ''-keyout'', pki_name @ ''.key'', ''-out'', pki_name @ ''.crt'']"

definition openssl_genrsa_command :: "string \<Rightarrow> string list" where
  "openssl_genrsa_command pki_name =
     [''openssl'', ''genrsa'', ''-out'', ''private.'' @ pki_name @ ''.key'', ''2048'']"

definition openssl_gencsr_command :: "string \<Rightarrow> string list" where
  "openssl_gencsr_command pki_name =
     [''openssl'', ''req'', ''-new'', ''-key'', ''private.'' @ pki_name @ ''.key'',
      ''-out'', pki_name @ ''.csr'', ''-config'', ''csr.conf'']"

definition generate_root_certs :: "env \<Rightarrow> string \<Rightarrow> unit prog" where
  "generate_root_certs e pki_name =
     (let working_directory = ''./'' @ os_path_join PKI_DIR pki_name in
      seq (print (''Generating root certificates at '' @ working_directory))
     (seq (and_then (os_path_exists working_directory) (\<lambda>exists.
             if \<not> exists then os_mkdir working_directory
             else seq (print (''Error: PKI with the name '' @ pki_name @ '' already exists''))
                      (sys_exit 1)))
     (seq (subprocess_run e (openssl_root_command pki_name) (Some working_directory) True)
     (seq (subprocess_run e (openssl_genrsa_command pki_name) (Some working_directory) True)
     (and_then (and_then (read_text (PKI_DIR @ ''/csr_template.j2'')) (jinja2_Template e))
        (\<lambda>template.
      seq (open_w (working_directory @ ''/csr.conf''))
     (seq (and_then (template_render e template [(''PKI_NAME'', pki_name)])
             (file_write (working_directory @ ''/csr.conf'')))
     (seq (subprocess_run e (openssl_gencsr_command pki_name) (Some working_directory) True)
          (print (''Done generating root certificates at '' @ working_directory))))))))))"

subsection \<open>\<open>_generate_server_certs\<close>\<close>

definition required_filenames :: "string \<Rightarrow> string list" where
  "required_filenames pki_name =
     [''./pkis/'' @ pki_name @ ''/private.'' @ pki_name @ ''.key'',
      ''./pkis/'' @ pki_name @ ''/'' @ pki_name @ ''.crt'',
      ''./pkis/'' @ pki_name @ ''/'' @ pki_name @ ''.csr'',
      ''./pkis/'' @ pki_name @ ''/'' @ pki_name @ ''.key'']"

definition openssl_create_ssl :: "string \<Rightarrow> string \<Rightarrow> string list" where
  "openssl_create_ssl pki_name server_domain =
     [''openssl'', ''x509'', ''-req'', ''-in'', ''../../'' @ pki_name @ ''.csr'',
      ''-CA'', ''../../'' @ pki_name @ ''.crt'', ''-CAkey'', ''../../'' @ pki_name @ ''.key'',
      ''-subj'',
      ''/C=UA/ST=Kiev Oblast/L=Something/O=Something Corp/OU=IT Dept/CN='' @ server_domain,
      ''-CAcreateserial'', ''-out'', server_domain @ ''.crt'', ''-days'', ''365'', ''-sha256'',
      ''-extfile'', ''cert.conf'']"

definition openssl_create_pkcs12_keystore :: "string \<Rightarrow> string \<Rightarrow> string \<Rightarrow> string list" where
  "openssl_create_pkcs12_keystore pki_name server_domain keystore_password =
     [''openssl'', ''pkcs12'', ''-export'', ''-out'', ''keystore.pkcs12'',
      ''-passout'', ''pass:'' @ keystore_password,
      ''-inkey'', ''../../private.'' @ pki_name @ ''.key'',
      ''-in'', ''../../servers/'' @ server_domain @ ''/'' @ server_domain @ ''.crt'',
      ''-certfile'', ''../../'' @ pki_name @ ''.crt'',
      ''-name'', server_domain]"

definition openssl_convert_to_jks :: "string \<Rightarrow> string \<Rightarrow> string list" where
  "openssl_convert_to_jks server_domain keystore_password =
     [''keytool'', ''-importkeystore'', ''-srckeystore'', ''keystore.pkcs12'',
      ''-srcstorepass'', keystore_password, ''-srcstoretype'', ''pkcs12'',
      ''-srcalias'', server_domain, ''-deststoretype'', ''jks'',
      ''-destkeystore'', ''keystore.jks'', ''-deststorepass'', keystore_password,
      ''-destalias'', server_domain]"

definition generate_server_certs :: "env \<Rightarrow> string \<Rightarrow> string \<Rightarrow> unit prog" where
  "generate_server_certs e pki_name server_domain =
     (let pki_directory = os_path_join PKI_DIR pki_name;
          server_directory = os_path_join pki_directory ''servers'';
          domain_directory = os_path_join server_directory server_domain;
          working_directory = ''./'' @ domain_directory in
      seq (and_then (os_path_exists pki_directory) (\<lambda>exists.
             if \<not> exists
             then seq (print (''Error: PKI directory with the name of '' @ pki_name @
                               '' does not exist''))
                      (sys_exit 1)
             else ret ()))
     (seq (check_files (required_filenames pki_name))
     (seq (and_then (os_path_exists server_directory) (\<lambda>exists.
             if \<not> exists then os_mkdir server_directory else ret ()))
     (seq (and_then (os_path_exists domain_directory) (\<lambda>exists.
             if \<not> exists
             then seq (os_mkdir domain_directory)
                      (print (''Error: '' @ domain_directory @ '' is already in use''))
             else ret ()))
     (seq (print (''Generating server certificates at '' @ working_directory))
     (and_then (and_then (read_text ''./pkis/cert_template.j2'') (jinja2_Template e))
        (\<lambda>cert_template.
      seq (open_w (domain_directory @ ''/cert.conf''))
     (seq (and_then (template_render e cert_template [(''SERVER_DOMAIN'', server_domain)])
             (file_write (domain_directory @ ''/cert.conf'')))
     (seq (subprocess_run e (openssl_create_ssl pki_name server_domain)
             (Some working_directory) True)
     (and_then (input ''Enter the keystore password(at least 6 characters): '')
        (\<lambda>keystore_password.
      seq (subprocess_run e
             (openssl_create_pkcs12_keystore pki_name server_domain keystore_password)
             (Some working_directory) True)
     (seq (subprocess_run e (openssl_convert_to_jks server_domain keystore_password)
             (Some working_directory) True)
     (seq (subprocess_run e [''rm'', ''keystore.pkcs12''] (Some working_directory) True)
          (print (''Done generating server certificates at '' @ working_directory)))))))))))))))"

subsection \<open>\<open>_generate_deployment\<close>\<close>

definition generate_deployment :: "env \<Rightarrow> string \<Rightarrow> string \<Rightarrow> string \<Rightarrow> string \<Rightarrow> unit prog" where
  "generate_deployment e deployment_name https_port pki_name domain_name =
     (let deployment_path = os_path_join DEP_DIR deployment_name in
      seq (print (''Generating the deployment '' @ deployment_name))
     (seq (print (''Generating the new deployment at '' @ deployment_path))
     (seq (and_then (os_path_exists deployment_path) (\<lambda>exists.
             if \<not> exists then os_mkdir deployment_path else ret ()))
     (and_then (input ''Enter the keystore password: '') (\<lambda>keystore_password.
      and_then (and_then (read_text (DEP_DIR @ ''/docker-compose-template.j2''))
                  (jinja2_Template e))
        (\<lambda>compose_template.
      seq (open_w (DEP_DIR @ ''/'' @ deployment_name @ ''/docker-compose.yaml''))
     (seq (and_then (template_render e compose_template
                       [(''HTTPS_PORT_BIND'', https_port),
                        (''KEYSTORE_PASSWORD'', keystore_password),
                        (''PKI_NAME'', pki_name),
                        (''DOMAIN_NAME'', domain_name)])
             (file_write (DEP_DIR @ ''/'' @ deployment_name @ ''/docker-compose.yaml'')))
     (seq (open_w (DEP_DIR @ ''/'' @ deployment_name @ ''/host_additions''))
     (seq (file_write (DEP_DIR @ ''/'' @ deployment_name @ ''/host_additions'')
             (''127.0.0.1    '' @ domain_name))
          (print (''Done generating the deployment '' @ deployment_name)))))))))))"

subsection \<open>\<open>_start_deployment\<close>\<close>

text \<open>
  The loop of the interrupt handler: every line of the name-resolution file that does not
  contain the entry (Python's \<open>in\<close> on strings) is written to the temporary file.
\<close>

fun copy_lines_without :: "string \<Rightarrow> string \<Rightarrow> string list \<Rightarrow> unit prog" where
  "copy_lines_without hosts_entry p [] = ret ()"
| "copy_lines_without hosts_entry p (line # lines) =
     seq (if \<not> sublist hosts_entry line then file_write p line else ret ())
         (copy_lines_without hosts_entry p lines)"

definition start_deployment :: "env \<Rightarrow> string \<Rightarrow> unit prog" where
  "start_deployment e deployment_name =
     (let working_dir = os_path_join DEP_DIR deployment_name in
      seq (print (''Starting the deployment '' @ deployment_name))
     (seq (and_then (os_path_exists working_dir) (\<lambda>exists.
             if \<not> exists then print ''Provided deployment does not exists'' else ret ()))
     (seq (check_files [working_dir @ ''/docker-compose.yaml'', working_dir @ ''/host_additions''])
     (and_then (read_text (working_dir @ ''/host_additions'')) (\<lambda>hosts_entry.
      seq (open_a ''/etc/hosts'')
     (seq (file_write ''/etc/hosts'' (LF # hosts_entry))
     (seq (except_KeyboardInterrupt
             (seq (subprocess_run e [''docker-compose'', ''up''] (Some working_dir) True)
                  (ret ()))
             (and_then (read_text ''/etc/hosts'') (\<lambda>hosts.
              seq (open_w ''/etc/hosts.tmp'')
             (seq (copy_lines_without hosts_entry ''/etc/hosts.tmp'' (iter_lines hosts))
             (seq (subprocess_run e [''mv'', ''/etc/hosts.tmp'', ''/etc/hosts''] None True)
                  (ret ()))))))
          (print (''Done starting the deployment '' @ deployment_name)))))))))"

subsection \<open>\<open>_git_crypt_unlock\<close>\<close>

definition openssl_decrypt_aes256 :: "string \<Rightarrow> string list" where
  "openssl_decrypt_aes256 key =
     [''openssl'', ''enc'', ''-in'', ''git-crypt-key.enc'', ''-out'', ''git-crypt-key'',
      ''-d'', ''-aes256'', ''-pass'', ''pass:'' @ key, ''-pbkdf2'']"

definition git_crypt_unlock :: "env \<Rightarrow> string \<Rightarrow> unit prog" where
  "git_crypt_unlock e key =
     seq (print ''Unlocking the repository...'')
         (except_CalledProcessError
            (seq (subprocess_run e (openssl_decrypt_aes256 key) None True)
            (seq (subprocess_run e [''git-crypt'', ''unlock'', ''./git-crypt-key''] None False)
                 (ret ())))
            (seq (subprocess_run e [''rm'', ''git-crypt-key''] None False)
                 (print ''Error: Unlocking failed'')))"

subsection \<open>The command line\<close>

text \<open>
  \<open>if args.x:\<close> tests Python truth: an option that was not given is \<open>None\<close>, and an
  empty string is false as well; a list of two or four strings is true.
\<close>

definition when_given :: "string option \<Rightarrow> (string \<Rightarrow> unit prog) \<Rightarrow> unit prog" where
  "when_given v f = (case v of None \<Rightarrow> ret () | Some s \<Rightarrow> if s \<noteq> [] then f s else ret ())"

definition handle_cli_arguments' :: "env \<Rightarrow> args \<Rightarrow> unit prog" where
  "handle_cli_arguments' e a =
     seq (when_given (pki_init a) (generate_root_certs e))
    (seq (case create_server_cert a of
            Some (pki_name, server_domain) \<Rightarrow> generate_server_certs e pki_name server_domain
          | None \<Rightarrow> ret ())
    (seq (case create_deployment a of
            Some (deployment_name, https_port, pki_name, domain_name) \<Rightarrow>
              generate_deployment e deployment_name https_port pki_name domain_name
          | None \<Rightarrow> ret ())
    (seq (when_given (start_deployment_arg a) (start_deployment e))
         (when_given (unlock a) (git_crypt_unlock e)))))"

text \<open>
  \<open>parser.parse_args()\<close> is \<open>argparse\<close>'s: its result on the command line is read from
  the environment, as are the number of words of the command line and the help text.
\<close>

definition handle_cli_arguments :: "env \<Rightarrow> unit prog" where
  "handle_cli_arguments e =
     and_then (case parse_args e of Inl x \<Rightarrow> raise x | Inr a \<Rightarrow> ret a) (\<lambda>a.
     seq (handle_cli_arguments' e a)
         (if argc e = 1
          then seq (\<lambda>w. (Inr (), w\<lparr>stderr := stderr w @ [help_text e]\<rparr>)) (sys_exit 1)
          else ret ()))"

definition main :: "env \<Rightarrow> unit prog" where
  "main e =
     and_then (executed_as_root e) (\<lambda>is_root.
       if \<not> is_root
       then seq (print ''This script must be running as root.'') (sys_exit 1)
       else handle_cli_arguments e)"

section \<open>Reading the command vectors\<close>

text \<open>
  The validity a certificate is requested with is the number that follows \<open>-days\<close> on
  the command line of the program that creates it.
\<close>

fun option_value :: "string \<Rightarrow> string list \<Rightarrow> string option" where
  "option_value flag (a # b # rest) =
     (if a = flag then Some b else option_value flag (b # rest))"
| "option_value flag _ = None"

definition digit :: "char \<Rightarrow> nat" where
  "digit c = of_char c - 48"

definition decimal :: "string \<Rightarrow> nat" where
  "decimal s = foldl (\<lambda>n c. 10 * n + digit c) 0 s"

definition validity_days :: "string list \<Rightarrow> nat option" where
  "validity_days argv = map_option decimal (option_value ''-days'' argv)"

text \<open>The claim that the leaf's window is the shorter one, in the words of the specification.\<close>

definition leaf_window_shorter :: "string \<Rightarrow> string \<Rightarrow> bool" where
  "leaf_window_shorter pki_name server_domain =
     (case (validity_days (openssl_create_ssl pki_name server_domain),
            validity_days (openssl_root_command pki_name)) of
        (Some leaf, Some root) \<Rightarrow> leaf < root
      | _ \<Rightarrow> False)"

section \<open>Properties of steps and runs\<close>

text \<open>The required files that are not regular files, in the order they are checked.\<close>

definition absent_files :: "world \<Rightarrow> string list \<Rightarrow> string list" where
  "absent_files w files = filter (\<lambda>p. \<not> is_file w p) files"

text \<open>
  One tree keeps the directories of another, and one tree keeps the directories and the
  names of another: what a lookup has found in the first, it finds in the second.
\<close>

definition keeps_dirs :: "(string list \<rightharpoonup> node) \<Rightarrow> (string list \<rightharpoonup> node) \<Rightarrow> bool" where
  "keeps_dirs t t' = (\<forall>k. node_at t k = Some Dir \<longrightarrow> node_at t' k = Some Dir)"

definition grows :: "(string list \<rightharpoonup> node) \<Rightarrow> (string list \<rightharpoonup> node) \<Rightarrow> bool" where
  "grows t t' = (keeps_dirs t t' \<and> (\<forall>k. node_at t k \<noteq> None \<longrightarrow> node_at t' k \<noteq> None))"

text \<open>A step of the script keeps a property of the world, however the step ends.\<close>

definition preserves :: "(world \<Rightarrow> bool) \<Rightarrow> 'a prog \<Rightarrow> bool" where
  "preserves P m = (\<forall>w r w'. m w = (r, w') \<longrightarrow> P w \<longrightarrow> P w')"

text \<open>A step that, when it returns, has read no input and launched no process.\<close>

definition quiet :: "'a prog \<Rightarrow> bool" where
  "quiet m = (\<forall>w a w'. m w = (Inr a, w') \<longrightarrow> stdin w' = stdin w \<and> trace w' = trace w)"

text \<open>
  A step that, however it ends, has read no input and has kept every process launched
  before it in the list of launched processes.
\<close>

definition steady :: "'a prog \<Rightarrow> bool" where
  "steady m = (\<forall>w r w'. m w = (r, w') \<longrightarrow>
     stdin w' = stdin w \<and> set (trace w) \<subseteq> set (trace w'))"

text \<open>The directory issuance works in, and the processes it launches there, in order.\<close>

definition server_working_directory :: "string \<Rightarrow> string \<Rightarrow> string" where
  "server_working_directory pki_name server_domain =
     ''./'' @ os_path_join (os_path_join (os_path_join PKI_DIR pki_name) ''servers'') server_domain"

definition issuance_commands ::
    "string \<Rightarrow> string \<Rightarrow> string \<Rightarrow> (string list \<times> string option) list" where
  "issuance_commands pki_name server_domain keystore_password =
     map (\<lambda>argv. (argv, Some (server_working_directory pki_name server_domain)))
       [openssl_create_ssl pki_name server_domain,
        openssl_create_pkcs12_keystore pki_name server_domain keystore_password,
        openssl_convert_to_jks server_domain keystore_password,
        [''rm'', ''keystore.pkcs12'']]"

text \<open>
  The order of the operations, in the words of the specification: the operations an
  invocation asks for, listed as bootstrap, issuance, provisioning, activation, unlock, and
  run one after the other until one of them raises.
\<close>

datatype operation =
    Bootstrap string
  | Issue string string
  | Provision string string string string
  | Activate string
  | Unlock string

fun perform :: "env \<Rightarrow> operation \<Rightarrow> unit prog" where
  "perform e (Bootstrap pki_name) = generate_root_certs e pki_name"
| "perform e (Issue pki_name server_domain) = generate_server_certs e pki_name server_domain"
| "perform e (Provision deployment_name https_port pki_name domain_name) =
     generate_deployment e deployment_name https_port pki_name domain_name"
| "perform e (Activate deployment_name) = start_deployment e deployment_name"
| "perform e (Unlock key) = git_crypt_unlock e key"

fun run_in_order :: "env \<Rightarrow> operation list \<Rightarrow> unit prog" where
  "run_in_order e [] = ret ()"
| "run_in_order e (x # xs) = seq (perform e x) (run_in_order e xs)"

fun stage :: "operation \<Rightarrow> nat" where
  "stage (Bootstrap pki_name) = 0"
| "stage (Issue pki_name server_domain) = 1"
| "stage (Provision deployment_name https_port pki_name domain_name) = 2"
| "stage (Activate deployment_name) = 3"
| "stage (Unlock key) = 4"

definition requested :: "args \<Rightarrow> operation list" where
  "requested a =
     (case pki_init a of None \<Rightarrow> [] | Some n \<Rightarrow> if n \<noteq> [] then [Bootstrap n] else []) @
     (case create_server_cert a of None \<Rightarrow> [] | Some (p, d) \<Rightarrow> [Issue p d]) @
     (case create_deployment a of None \<Rightarrow> []
      | Some (n, port, p, d) \<Rightarrow> [Provision n port p d]) @
     (case start_deployment_arg a of None \<Rightarrow> []
      | Some n \<Rightarrow> if n \<noteq> [] then [Activate n] else []) @
     (case unlock a of None \<Rightarrow> [] | Some k \<Rightarrow> if k \<noteq> [] then [Unlock k] else [])"

section \<open>An example installation\<close>

text \<open>
  A machine on which every external program succeeds, with the two template files of the
  PKI store, the template of the deployments and a name-resolution file of one line.
\<close>

definition example_env :: env where
  "example_env = \<lparr>euid = 0, argc = 2,
     parse_args = Inr \<lparr>pki_init = None, create_server_cert = None, create_deployment = None,
                       start_deployment_arg = None, unlock = None\<rparr>,
     help_text = ''usage'',
     proc = (\<lambda>argv. Exited 0),
     produced = (\<lambda>argv name. ''data''),
     jinja_accepts = (\<lambda>text. True),
     jinja_render = (\<lambda>text bindings. Some (text @ concat (map snd bindings)))\<rparr>"

definition example_tree :: "string list \<rightharpoonup> node" where
  "example_tree = [
     [''pkis''] \<mapsto> Dir,
     [''pkis'', ''csr_template.j2''] \<mapsto> File ''csr '',
     [''pkis'', ''cert_template.j2''] \<mapsto> File ''cert '',
     [''deployments''] \<mapsto> Dir,
     [''deployments'', ''docker-compose-template.j2''] \<mapsto> File ''compose '',
     [''/'', ''etc''] \<mapsto> Dir,
     [''/'', ''etc'', ''hosts''] \<mapsto> File (''127.0.0.1 localhost'' @ [LF])]"

definition example_world :: world where
  "example_world =
     \<lparr>fs = example_tree, stdout = [], stderr = [], stdin = [''abc'', ''abc''], trace = []\<rparr>"

text \<open>A PKI directory that holds the service key only.\<close>

definition partial_world :: world where
  "partial_world =
     example_world\<lparr>fs := example_tree([''pkis'', ''example''] \<mapsto> Dir,
        [''pkis'', ''example'', ''private.example.key''] \<mapsto> File ''data'')\<rparr>"

text \<open>The example installation after its PKI \<open>example\<close> has been bootstrapped.\<close>

definition bootstrapped_world :: world where
  "bootstrapped_world = snd (generate_root_certs example_env ''example'' example_world)"

text \<open>The example installation with the four root artifacts of the PKI \<open>example\<close>.\<close>

definition anchored_world :: world where
  "anchored_world =
     example_world\<lparr>fs := example_tree([''pkis'', ''example''] \<mapsto> Dir,
        [''pkis'', ''example'', ''example.key''] \<mapsto> File ''data'',
        [''pkis'', ''example'', ''example.crt''] \<mapsto> File ''data'',
        [''pkis'', ''example'', ''private.example.key''] \<mapsto> File ''data'',
        [''pkis'', ''example'', ''csr.conf''] \<mapsto> File ''csr example'',
        [''pkis'', ''example'', ''example.csr''] \<mapsto> File ''data'')\<rparr>"

definition issued_world :: world where
  "issued_world =
     snd (generate_server_certs example_env ''example'' ''svc.example.com'' anchored_world)"

text \<open>The same, with the directory of the domain \<open>svc.example.com\<close> already there.\<close>

definition reissue_world :: world where
  "reissue_world =
     anchored_world\<lparr>fs := (fs anchored_world)
       ([''pkis'', ''example'', ''servers''] \<mapsto> Dir,
        [''pkis'', ''example'', ''servers'', ''svc.example.com''] \<mapsto> Dir)\<rparr>"

text \<open>The example installation with the deployment \<open>web\<close> provisioned.\<close>

definition provisioned_world :: world where
  "provisioned_world =
     example_world\<lparr>fs := example_tree([''deployments'', ''web''] \<mapsto> Dir,
        [''deployments'', ''web'', ''docker-compose.yaml''] \<mapsto> File ''compose'',
        [''deployments'', ''web'', ''host_additions''] \<mapsto>
          File ''127.0.0.1    svc.example.com'')\<rparr>"

text \<open>
  Machines on which the child process of an activation is interrupted from the keyboard,
  on which every process exits with status 1, and on which \<open>keytool\<close> refuses a
  store passphrase of fewer than 6 characters, as the real one does.
\<close>

definition interrupted_env :: env where
  "interrupted_env =
     example_env\<lparr>proc := (\<lambda>argv. if argv = [''docker-compose'', ''up''] then Interrupted
                                  else Exited 0)\<rparr>"

definition failing_env :: env where
  "failing_env = example_env\<lparr>proc := (\<lambda>argv. Exited 1)\<rparr>"

definition strict_env :: env where
  "strict_env =
     example_env\<lparr>proc := (\<lambda>argv.
        if take 1 argv = [''keytool''] then
          (case option_value ''-deststorepass'' argv of
             Some p \<Rightarrow> if length p < 6 then Exited 1 else Exited 0
           | None \<Rightarrow> Exited 1)
        else Exited 0)\<rparr>"

section \<open>Sequencing laws\<close>

lemma and_then_Inr: "m w = (Inr a, w1) \<Longrightarrow> and_then m f w = f a w1"
  by (simp add: and_then_def)

lemma seq_Inr: "m w = (Inr a, w1) \<Longrightarrow> seq m n w = n w1"
  by (simp add: seq_def and_then_def)

lemma seq_Inl: "m w = (Inl x, w1) \<Longrightarrow> seq m n w = (Inl x, w1)"
  by (simp add: seq_def and_then_def)

lemma and_then_returns:
  assumes "and_then m f w = (Inr b, w')"
  obtains a w1 where "m w = (Inr a, w1)" and "f a w1 = (Inr b, w')"
  using assms by (auto simp: and_then_def split: prod.splits sum.splits)

lemma seq_returns:
  assumes "seq m n w = (Inr b, w')"
  obtains a w1 where "m w = (Inr a, w1)" and "n w1 = (Inr b, w')"
  using assms by (auto simp: seq_def and_then_def split: prod.splits sum.splits)

lemma seq_ret_right: "seq (m :: unit prog) (ret ()) = m"
  by (auto simp: seq_def and_then_def ret_def split: prod.splits sum.splits)

section \<open>The root check\<close>

text \<open>
  C9. When the effective user id is not 0, \<open>main\<close> writes one line to standard output and
  exits with status 1: the command line is not read, no process is launched, the directory
  tree and everything else in the world is as before.
\<close>

theorem main_refuses_non_root:
  "euid e \<noteq> 0 \<Longrightarrow>
   main e w = (Inl (SystemExit 1),
               w\<lparr>stdout := stdout w @ [''This script must be running as root.'']\<rparr>)"
  by (simp add: main_def executed_as_root_def and_then_def seq_def ret_def print_def
      sys_exit_def raise_def)

theorem main_refuses_non_root_witness:
  "euid (example_env\<lparr>euid := 1000\<rparr>) \<noteq> 0
   \<and> main (example_env\<lparr>euid := 1000\<rparr>) example_world =
       (Inl (SystemExit 1),
        example_world\<lparr>stdout := stdout example_world @
           [''This script must be running as root.'']\<rparr>)"
  using main_refuses_non_root [of "example_env\<lparr>euid := 1000\<rparr>" example_world]
  by simp

section \<open>Validity windows\<close>

lemma crt_name_not_days: "server_domain @ ''.crt'' \<noteq> ''-days''"
proof
  assume "server_domain @ ''.crt'' = ''-days''"
  then have "last (server_domain @ ''.crt'') = last ''-days''"
    by (rule arg_cong)
  then show False by simp
qed

lemma validity_days_leaf:
  "validity_days (openssl_create_ssl pki_name server_domain) = Some 365"
  by (simp add: validity_days_def openssl_create_ssl_def crt_name_not_days decimal_def
      digit_def)

lemma validity_days_root:
  "validity_days (openssl_root_command pki_name) = Some 356"
  by (simp add: validity_days_def openssl_root_command_def decimal_def digit_def)

text \<open>
  C5, as the code has it. Every leaf certificate is requested for 365 days and every root
  certificate for 356 days, whatever the names: both windows are fixed, and the leaf's is
  not shorter than the root's.
\<close>

theorem leaf_window_not_shorter:
  "validity_days (openssl_create_ssl pki_name server_domain) = Some 365
   \<and> validity_days (openssl_root_command pki_name) = Some 356
   \<and> \<not> leaf_window_shorter pki_name server_domain"
  by (simp add: leaf_window_shorter_def validity_days_leaf validity_days_root)

text \<open>C5, as stated, fails for the PKI \<open>example\<close> and the domain \<open>svc.example.com\<close>.\<close>

theorem leaf_window_shorter_counterexample:
  "\<not> leaf_window_shorter ''example'' ''svc.example.com''"
  by (simp add: leaf_window_shorter_def validity_days_leaf validity_days_root)

section \<open>Lookups\<close>

lemma descend_append:
  "descend t at (cs @ ds) =
     (case descend t at cs of None \<Rightarrow> None | Some k \<Rightarrow> descend t k ds)"
  by (induction cs arbitrary: at) auto

lemma descend_key: "descend t at cs = Some k \<Longrightarrow> k = foldl walk at cs"
  by (induction cs arbitrary: at) (auto split: if_splits)

lemma locate_resolve: "locate t p = Some k \<Longrightarrow> k = resolve p"
  by (auto simp: locate_def resolve_def dest: descend_key split: if_splits)

lemma lookup_file_key: "lookup t p = Some (File c) \<Longrightarrow> t (resolve p) = Some (File c)"
  by (auto simp: lookup_def node_at_def dest: locate_resolve split: option.splits if_splits)

lemma descend_kept:
  "keeps_dirs t t' \<Longrightarrow> descend t at cs = Some k \<Longrightarrow> descend t' at cs = Some k"
  by (induction cs arbitrary: at) (auto simp: keeps_dirs_def split: if_splits)

lemma locate_kept: "keeps_dirs t t' \<Longrightarrow> locate t p = Some k \<Longrightarrow> locate t' p = Some k"
  by (auto simp: locate_def dest: descend_kept split: if_splits)

lemma locate_in_kept:
  "keeps_dirs t t' \<Longrightarrow> locate_in t cwd name = Some k \<Longrightarrow> locate_in t' cwd name = Some k"
proof (cases "cwd = None \<or> take 1 name = ''/''")
  case True
  then show "keeps_dirs t t' \<Longrightarrow> locate_in t cwd name = Some k \<Longrightarrow> ?thesis"
    by (auto simp: locate_in_def dest: locate_kept split: option.splits)
next
  case False
  assume kept: "keeps_dirs t t'" and found: "locate_in t cwd name = Some k"
  from False obtain d where cwd: "cwd = Some d" by auto
  with False found obtain kd where "name \<noteq> []" and "locate t d = Some kd"
    and "descend t kd (components name) = Some k"
    by (auto simp: locate_in_def split: option.splits if_splits)
  with kept have "locate t' d = Some kd" and "descend t' kd (components name) = Some k"
    by (auto dest: locate_kept descend_kept)
  with False cwd \<open>name \<noteq> []\<close> show ?thesis
    by (simp add: locate_in_def)
qed

lemma grows_refl: "grows t t"
  by (simp add: grows_def keeps_dirs_def)

lemma grows_trans: "grows t t1 \<Longrightarrow> grows t1 t2 \<Longrightarrow> grows t t2"
  by (simp add: grows_def keeps_dirs_def)

lemma grows_keeps: "grows t t' \<Longrightarrow> keeps_dirs t t'"
  by (simp add: grows_def)

lemma lookup_grows:
  assumes "grows t t'" and "lookup t p \<noteq> None"
  shows "lookup t' p \<noteq> None"
proof -
  from assms(2) obtain k where "locate t p = Some k" and "node_at t k \<noteq> None"
    by (auto simp: lookup_def split: option.splits)
  with assms(1) have "locate t' p = Some k" and "node_at t' k \<noteq> None"
    by (auto simp: grows_def dest: locate_kept)
  then show ?thesis
    by (simp add: lookup_def)
qed

lemma lookup_dir_kept:
  assumes "keeps_dirs t t'" and "lookup t p = Some Dir"
  shows "lookup t' p = Some Dir"
proof -
  from assms(2) obtain k where "locate t p = Some k" and "node_at t k = Some Dir"
    by (auto simp: lookup_def split: option.splits)
  with assms(1) have "locate t' p = Some k" and "node_at t' k = Some Dir"
    by (auto dest: locate_kept) (simp add: keeps_dirs_def)
  then show ?thesis
    by (simp add: lookup_def)
qed

lemma directory_kept:
  assumes "keeps_dirs t t'" and "locate t d = Some kd" and "node_at t kd = Some Dir"
  shows "locate t' d = Some kd" and "node_at t' kd = Some Dir"
proof -
  from assms(1,2) show "locate t' d = Some kd"
    by (rule locate_kept)
  from assms(1,3) show "node_at t' kd = Some Dir"
    by (simp add: keeps_dirs_def)
qed

lemma components_not_Nil: "components s \<noteq> []"
  by (induction s) (auto split: list.splits)

lemma components_slash: "components (d @ CHR ''/'' # name) = components d @ components name"
  using components_not_Nil by (induction d) (auto split: list.splits)

lemma origin_child: "d \<noteq> [] \<Longrightarrow> origin (d @ s) = origin d"
  by (cases d) (simp_all add: origin_def)

lemma locate_child:
  "d \<noteq> [] \<Longrightarrow>
   locate t (d @ CHR ''/'' # name) =
     (case locate t d of None \<Rightarrow> None | Some k \<Rightarrow> descend t k (components name))"
  by (simp add: locate_def origin_child components_slash descend_append)

lemma slashes_replicate:
  "takeWhile (\<lambda>c. c = a) xs = replicate (length (takeWhile (\<lambda>c. c = a) xs)) a"
  by (induction xs) auto

lemma strip_slashes_split: "\<exists>n. p = strip_slashes p @ replicate n CHR ''/''"
proof (cases "rev (dropWhile (\<lambda>c. c = CHR ''/'') (rev p)) = []")
  case True
  then have "strip_slashes p = p"
    by (simp add: strip_slashes_def)
  then have "p = strip_slashes p @ replicate 0 CHR ''/''"
    by simp
  then show ?thesis ..
next
  case False
  let ?P = "\<lambda>c. c = CHR ''/''"
  let ?n = "length (takeWhile ?P (rev p))"
  have "rev (takeWhile ?P (rev p) @ dropWhile ?P (rev p)) = p"
    by (simp only: takeWhile_dropWhile_id rev_rev_ident)
  then have "p = rev (dropWhile ?P (rev p)) @ rev (takeWhile ?P (rev p))"
    by (simp only: rev_append)
  moreover have "rev (takeWhile ?P (rev p)) = replicate ?n CHR ''/''"
    using slashes_replicate [of "CHR ''/''" "rev p"] by (metis rev_replicate)
  moreover from False have "strip_slashes p = rev (dropWhile ?P (rev p))"
    unfolding strip_slashes_def Let_def by (simp only: if_False)
  ultimately have "p = strip_slashes p @ replicate ?n CHR ''/''"
    by simp
  then show ?thesis ..
qed

lemma components_slashes:
  "components (replicate n CHR ''/'') = replicate (Suc n) []"
  by (induction n) simp_all

lemma components_trailing:
  "components (d @ replicate n CHR ''/'') = components d @ replicate n []"
proof (cases n)
  case 0
  then show ?thesis by simp
next
  case (Suc m)
  then show ?thesis
    using components_slash [of d "replicate m CHR ''/''"]
    by (simp add: components_slashes)
qed

lemma descend_empties: "node_at t k = Some Dir \<Longrightarrow> descend t k (replicate n []) = Some k"
  by (induction n) (simp_all add: walk_def)

lemma locate_trailing:
  assumes "locate t q = Some k" and "node_at t k = Some Dir"
  shows "locate t (q @ replicate n CHR ''/'') = Some k"
proof -
  from assms(1) have "q \<noteq> []" and "descend t (origin q) (components q) = Some k"
    by (auto simp: locate_def split: if_splits)
  with assms(2) show ?thesis
    by (simp add: locate_def origin_child components_trailing descend_append descend_empties)
qed

lemma os_mkdir_exists:
  assumes "os_mkdir p w = (Inr u, w')"
  shows "path_exists w' p"
proof -
  from assms obtain k where found: "locate (fs w) (strip_slashes p) = Some k"
    and free: "node_at (fs w) k = None" and tree: "fs w' = (fs w)(k \<mapsto> Dir)"
    by (auto simp: os_mkdir_def split: option.splits if_splits)
  from free tree have "keeps_dirs (fs w) (fs w')"
    by (auto simp: keeps_dirs_def node_at_def split: if_splits)
  with found have "locate (fs w') (strip_slashes p) = Some k"
    by (rule locate_kept [rotated])
  moreover from free tree have made: "node_at (fs w') k = Some Dir"
    by (auto simp: node_at_def split: if_splits)
  moreover obtain n where "p = strip_slashes p @ replicate n CHR ''/''"
    using strip_slashes_split by blast
  ultimately have "locate (fs w') p = Some k"
    using locate_trailing [of "fs w'" "strip_slashes p" k n] by simp
  with made show ?thesis
    by (simp add: path_exists_def lookup_def)
qed

text \<open>
  On the example installation: a path through a directory that is not there names nothing,
  whatever follows it, and neither does a path through a file.
\<close>

lemma lookup_through_absent_directory:
  "lookup example_tree ''pkis/ghost/..'' = None
   \<and> lookup example_tree ''pkis/ghost/../csr_template.j2'' = None
   \<and> lookup example_tree ''pkis/csr_template.j2/..'' = None
   \<and> lookup example_tree ''pkis/../pkis/csr_template.j2'' = Some (File ''csr '')
   \<and> lookup example_tree ''./pkis//csr_template.j2'' = Some (File ''csr '')
   \<and> lookup example_tree ''pkis/'' = Some Dir"
  by code_simp

section \<open>Issuance without a trust anchor\<close>

lemma check_files_first_absent:
  "absent_files w files \<noteq> [] \<Longrightarrow>
   check_files files w =
     (Inl (SystemExit 1),
      w\<lparr>stdout := stdout w @ [''Error: missing file '' @ hd (absent_files w files) @ ''!'']\<rparr>)"
  by (induction files)
     (auto simp: absent_files_def and_then_def seq_def os_path_isfile_def print_def
       sys_exit_def raise_def)

text \<open>
  C3, as the code has it. When one of the four root artifacts is not a regular file,
  issuance exits with status 1 after one line of output: that the PKI directory does not
  exist, or else the name of the first absent artifact in the order service key, root
  certificate, signing request, root key. Nothing else in the world changes: no directory
  is made, no file is written, no process is launched, no passphrase is read.
\<close>

theorem issue_without_anchor:
  assumes "absent_files w (required_filenames pki_name) \<noteq> []"
  shows "generate_server_certs e pki_name server_domain w =
     (Inl (SystemExit 1),
      w\<lparr>stdout := stdout w @
         [if path_exists w (os_path_join PKI_DIR pki_name)
          then ''Error: missing file '' @ hd (absent_files w (required_filenames pki_name)) @ ''!''
          else ''Error: PKI directory with the name of '' @ pki_name @ '' does not exist'']\<rparr>)"
proof (cases "path_exists w (os_path_join PKI_DIR pki_name)")
  case True
  then show ?thesis
    using check_files_first_absent [OF assms]
    by (simp add: generate_server_certs_def Let_def seq_def and_then_def os_path_exists_def
        ret_def)
next
  case False
  then show ?thesis
    by (simp add: generate_server_certs_def Let_def seq_def and_then_def os_path_exists_def
        print_def sys_exit_def raise_def)
qed

lemma partial_world_absent:
  "absent_files partial_world (required_filenames ''example'') =
     [''./pkis/example/example.crt'', ''./pkis/example/example.csr'',
      ''./pkis/example/example.key'']"
  by code_simp

theorem issue_without_anchor_witness:
  "absent_files partial_world (required_filenames ''example'') \<noteq> []
   \<and> generate_server_certs example_env ''example'' ''svc.example.com'' partial_world =
     (Inl (SystemExit 1),
      partial_world\<lparr>stdout := stdout partial_world @
         [''Error: missing file ./pkis/example/example.crt!'']\<rparr>)"
proof -
  have absent: "absent_files partial_world (required_filenames ''example'') \<noteq> []"
    by (simp add: partial_world_absent)
  have there: "path_exists partial_world (os_path_join PKI_DIR ''example'')"
    by code_simp
  show ?thesis
    using issue_without_anchor [OF absent, of example_env "''svc.example.com''"] absent there
    by (simp add: partial_world_absent)
qed

text \<open>
  C3, as stated, fails in the installation whose PKI directory holds the service key only:
  three artifacts are absent, and the output names the first of them and neither of the
  other two.
\<close>

theorem issue_lists_absent_files_counterexample:
  "absent_files partial_world (required_filenames ''example'') =
     [''./pkis/example/example.crt'', ''./pkis/example/example.csr'',
      ''./pkis/example/example.key'']
   \<and> fst (generate_server_certs example_env ''example'' ''svc.example.com'' partial_world) =
       Inl (SystemExit 1)
   \<and> stdout (snd (generate_server_certs example_env ''example'' ''svc.example.com''
         partial_world)) = [''Error: missing file ./pkis/example/example.crt!'']"
  by code_simp

text \<open>
  A PKI name that leads through a directory that is not there names no PKI directory, also
  where the remaining part of the name is the name of a PKI: the four artifacts are absent
  and issuance reports the directory.
\<close>

lemma issue_through_absent_directory:
  "absent_files anchored_world (required_filenames ''ghost/../example'') =
     required_filenames ''ghost/../example''
   \<and> generate_server_certs example_env ''ghost/../example'' ''svc.example.com'' anchored_world =
     (Inl (SystemExit 1),
      anchored_world\<lparr>stdout := stdout anchored_world @
         [''Error: PKI directory with the name of ghost/../example does not exist'']\<rparr>)
   \<and> generate_server_certs example_env ''ghost/..'' ''svc.example.com'' example_world =
     (Inl (SystemExit 1),
      example_world\<lparr>stdout := stdout example_world @
         [''Error: PKI directory with the name of ghost/.. does not exist'']\<rparr>)"
proof -
  have absent: "absent_files anchored_world (required_filenames ''ghost/../example'') =
      required_filenames ''ghost/../example''"
    by code_simp
  have absent': "absent_files example_world (required_filenames ''ghost/..'') \<noteq> []"
    by code_simp
  have gone: "\<not> path_exists anchored_world (os_path_join PKI_DIR ''ghost/../example'')"
    "\<not> path_exists example_world (os_path_join PKI_DIR ''ghost/..'')"
    by code_simp+
  have "absent_files anchored_world (required_filenames ''ghost/../example'') \<noteq> []"
    unfolding absent by (simp add: required_filenames_def)
  then show ?thesis
    using absent absent' gone
    by (simp add: generate_server_certs_def Let_def seq_def and_then_def os_path_exists_def
        print_def sys_exit_def raise_def)
qed

section \<open>What a step leaves in place\<close>

lemma preserves_and_then:
  "preserves P m \<Longrightarrow> (\<And>a. preserves P (f a)) \<Longrightarrow> preserves P (and_then m f)"
  unfolding preserves_def and_then_def
  by (auto split: prod.splits sum.splits)

lemma preserves_seq: "preserves P m \<Longrightarrow> preserves P n \<Longrightarrow> preserves P (seq m n)"
  unfolding seq_def by (rule preserves_and_then)

lemma preservesD: "preserves P m \<Longrightarrow> m w = (r, w') \<Longrightarrow> P w \<Longrightarrow> P w'"
  unfolding preserves_def by blast

lemma path_exists_grows:
  "grows (fs w) (fs w') \<Longrightarrow> path_exists w p \<Longrightarrow> path_exists w' p"
  unfolding path_exists_def by (rule lookup_grows)

lemma growing_preserves_path:
  "(\<And>w r w'. m w = (r, w') \<Longrightarrow> grows (fs w) (fs w')) \<Longrightarrow>
   preserves (\<lambda>w. path_exists w p) m"
  unfolding preserves_def by (blast intro: path_exists_grows)

lemma grows_put: "node_at t k \<noteq> Some Dir \<Longrightarrow> grows t (t(k \<mapsto> n))"
  by (auto simp: grows_def keeps_dirs_def node_at_def split: if_splits)

lemma grows_put_file: "grows t (put_file key c t)"
  by (auto simp: put_file_def grows_refl grows_put split: option.splits)

lemma grows_put_outputs: "grows t (put_outputs e argv cwd names t)"
proof (induction names arbitrary: t)
  case Nil
  then show ?case by (simp add: grows_refl)
next
  case (Cons name names)
  have "grows t (put_file (locate_in t cwd name) (produced e argv name) t)"
    by (rule grows_put_file)
  moreover have "grows (put_file (locate_in t cwd name) (produced e argv name) t)
      (put_outputs e argv cwd names (put_file (locate_in t cwd name) (produced e argv name) t))"
    by (rule Cons.IH)
  ultimately show ?case
    by (auto intro: grows_trans)
qed

lemma run_program_long:
  "3 < length argv \<Longrightarrow>
   run_program e argv cwd t =
     (proc e argv, if proc e argv = Exited 0 then put_outputs e argv cwd (outputs argv) t else t)"
  by (auto simp: run_program_def split: list.splits)

lemma subprocess_run_grows:
  assumes "3 < length argv" and "subprocess_run e argv cwd chk w = (r, w')"
  shows "grows (fs w) (fs w')"
  using assms(2) grows_put_outputs [of "fs w" e argv cwd "outputs argv"]
  by (auto simp: subprocess_run_def run_program_long [OF assms(1)] grows_refl
      split: option.splits node.splits outcome.splits if_splits)

lemma print_fs: "print s w = (r, w') \<Longrightarrow> fs w' = fs w"
  by (auto simp: print_def)

lemma read_text_same: "read_text p w = (r, w') \<Longrightarrow> w' = w"
  by (auto simp: read_text_def split: option.splits node.splits)

lemma jinja2_Template_same: "jinja2_Template e s w = (r, w') \<Longrightarrow> w' = w"
  by (auto simp: jinja2_Template_def ret_def raise_def split: if_splits)

lemma template_render_same: "template_render e s b w = (r, w') \<Longrightarrow> w' = w"
  by (auto simp: template_render_def ret_def raise_def split: option.splits)

lemma open_w_grows: "open_w p w = (r, w') \<Longrightarrow> grows (fs w) (fs w')"
  by (auto simp: open_w_def grows_refl grows_put split: option.splits if_splits)

lemma file_write_grows: "file_write p s w = (r, w') \<Longrightarrow> grows (fs w) (fs w')"
  by (auto simp: file_write_def grows_refl grows_put split: option.splits node.splits)

lemma path_kept_print: "preserves (\<lambda>w. path_exists w p) (print s)"
  by (rule growing_preserves_path) (auto simp: print_def grows_refl)

lemma path_kept_read_text: "preserves (\<lambda>w. path_exists w p) (read_text q)"
  by (rule growing_preserves_path) (auto dest: read_text_same simp: grows_refl)

lemma path_kept_jinja2_Template: "preserves (\<lambda>w. path_exists w p) (jinja2_Template e s)"
  by (rule growing_preserves_path) (auto dest: jinja2_Template_same simp: grows_refl)

lemma path_kept_template_render: "preserves (\<lambda>w. path_exists w p) (template_render e s b)"
  by (rule growing_preserves_path) (auto dest: template_render_same simp: grows_refl)

lemma path_kept_open_w: "preserves (\<lambda>w. path_exists w p) (open_w q)"
  by (rule growing_preserves_path) (rule open_w_grows)

lemma path_kept_file_write: "preserves (\<lambda>w. path_exists w p) (file_write q s)"
  by (rule growing_preserves_path) (rule file_write_grows)

lemma path_kept_subprocess_run:
  "3 < length argv \<Longrightarrow> preserves (\<lambda>w. path_exists w p) (subprocess_run e argv cwd chk)"
  by (rule growing_preserves_path) (rule subprocess_run_grows)

lemma path_exists_stdout: "path_exists (w\<lparr>stdout := s\<rparr>) p = path_exists w p"
  by (simp add: path_exists_def)

section \<open>Bootstrapping twice\<close>

text \<open>
  When a first step is followed by a guard and the remaining steps, and the whole returns,
  what the guard establishes and the remaining steps keep holds at the end.
\<close>

lemma guarded_then_kept:
  assumes "seq m (seq g n) w = (Inr b, w')"
    and "\<And>wa a wb. g wa = (Inr a, wb) \<Longrightarrow> P wb"
    and "preserves P n"
  shows "P w'"
proof -
  from assms(1) obtain a wa where "seq g n wa = (Inr b, w')"
    by (rule seq_returns)
  then obtain c wb where "g wa = (Inr c, wb)" and "n wb = (Inr b, w')"
    by (rule seq_returns)
  with assms(2,3) show ?thesis
    by (blast dest: preservesD)
qed

lemma bootstrap_creates_directory:
  assumes "generate_root_certs e pki_name w = (Inr (), w1)"
  shows "path_exists w1 (''./'' @ os_path_join PKI_DIR pki_name)"
proof (rule guarded_then_kept [OF assms [unfolded generate_root_certs_def Let_def]], goal_cases)
  case (1 wa a wb)
  then show ?case
    by (auto simp: and_then_def os_path_exists_def seq_def print_def sys_exit_def raise_def
        dest: os_mkdir_exists split: if_splits)
next
  case 2
  show ?case
    by (intro preserves_seq preserves_and_then path_kept_print path_kept_read_text
        path_kept_jinja2_Template path_kept_template_render path_kept_open_w
        path_kept_file_write path_kept_subprocess_run)
       (simp_all add: openssl_root_command_def openssl_genrsa_command_def
        openssl_gencsr_command_def)
qed

lemma bootstrap_refused:
  assumes "path_exists w (''./'' @ os_path_join PKI_DIR pki_name)"
  shows "generate_root_certs e pki_name w =
     (Inl (SystemExit 1),
      w\<lparr>stdout := stdout w @
         [''Generating root certificates at ./'' @ os_path_join PKI_DIR pki_name,
          ''Error: PKI with the name '' @ pki_name @ '' already exists'']\<rparr>)"
  using assms
  by (simp add: generate_root_certs_def Let_def seq_def and_then_def print_def
      os_path_exists_def sys_exit_def raise_def path_exists_stdout)

text \<open>
  C4. After a bootstrap of a PKI name has returned, a second bootstrap of the same name
  exits with status 1 at the directory guard, with the line that the PKI already exists:
  apart from the two lines it prints, the world is the one the first bootstrap left, so no
  process is launched, no file is written and every artifact is as it was.
\<close>

theorem second_bootstrap_fails:
  assumes "generate_root_certs e pki_name w = (Inr (), w1)"
  shows "generate_root_certs e pki_name w1 =
     (Inl (SystemExit 1),
      w1\<lparr>stdout := stdout w1 @
         [''Generating root certificates at ./'' @ os_path_join PKI_DIR pki_name,
          ''Error: PKI with the name '' @ pki_name @ '' already exists'']\<rparr>)"
  by (rule bootstrap_refused) (rule bootstrap_creates_directory [OF assms])

lemma example_bootstrap_returns:
  "generate_root_certs example_env ''example'' example_world = (Inr (), bootstrapped_world)"
proof -
  have "fst (generate_root_certs example_env ''example'' example_world) = Inr ()"
    by code_simp
  then show ?thesis
    by (simp add: bootstrapped_world_def prod_eq_iff)
qed

theorem second_bootstrap_fails_witness:
  "generate_root_certs example_env ''example'' example_world = (Inr (), bootstrapped_world)
   \<and> generate_root_certs example_env ''example'' bootstrapped_world =
     (Inl (SystemExit 1),
      bootstrapped_world\<lparr>stdout := stdout bootstrapped_world @
         [''Generating root certificates at ./'' @ os_path_join PKI_DIR ''example'',
          ''Error: PKI with the name '' @ ''example'' @ '' already exists'']\<rparr>)"
  using second_bootstrap_fails [OF example_bootstrap_returns] example_bootstrap_returns
  by simp

section \<open>The order of the operations\<close>

lemma run_in_order_append:
  "run_in_order e (xs @ ys) = seq (run_in_order e xs) (run_in_order e ys)"
  by (induction xs)
     (auto simp: seq_def and_then_def ret_def fun_eq_iff split: prod.splits sum.splits)

text \<open>
  C10. Handling the parsed command line is running the requested operations in the fixed
  order bootstrap, issuance, provisioning, activation, unlock: the stages of the list of
  requested operations increase strictly, so none is run twice.
\<close>

theorem operations_in_fixed_order:
  "handle_cli_arguments' e a = run_in_order e (requested a)
   \<and> sorted_wrt (<) (map stage (requested a))"
proof
  show "handle_cli_arguments' e a = run_in_order e (requested a)"
    by (simp add: handle_cli_arguments'_def requested_def run_in_order_append when_given_def
        seq_ret_right split: option.splits)
  show "sorted_wrt (<) (map stage (requested a))"
    by (auto simp: requested_def sorted_wrt_append split: option.splits)
qed

section \<open>Input and processes of a run that returns\<close>

lemma quietD: "quiet m \<Longrightarrow> m w = (Inr a, w') \<Longrightarrow> stdin w' = stdin w \<and> trace w' = trace w"
  unfolding quiet_def by blast

lemma quiet_and_then: "quiet m \<Longrightarrow> (\<And>a. quiet (f a)) \<Longrightarrow> quiet (and_then m f)"
  unfolding quiet_def and_then_def
  by (auto split: prod.splits sum.splits)

lemma quiet_seq: "quiet m \<Longrightarrow> quiet n \<Longrightarrow> quiet (seq m n)"
  unfolding seq_def by (rule quiet_and_then)

lemma quiet_if: "quiet m \<Longrightarrow> quiet n \<Longrightarrow> quiet (if c then m else n)"
  by simp

lemma quiet_ret: "quiet (ret a)"
  by (simp add: quiet_def ret_def)

lemma quiet_sys_exit: "quiet (sys_exit n)"
  by (simp add: quiet_def sys_exit_def raise_def)

lemma quiet_print: "quiet (print s)"
  by (auto simp: quiet_def print_def)

lemma quiet_os_path_exists: "quiet (os_path_exists p)"
  by (auto simp: quiet_def os_path_exists_def)

lemma quiet_os_path_isfile: "quiet (os_path_isfile p)"
  by (auto simp: quiet_def os_path_isfile_def)

lemma quiet_check_files: "quiet (check_files files)"
  by (induction files)
     (auto intro!: quiet_and_then quiet_seq quiet_ret quiet_sys_exit quiet_print
       quiet_os_path_isfile)

lemma quiet_os_mkdir: "quiet (os_mkdir p)"
  by (auto simp: quiet_def os_mkdir_def split: option.splits if_splits)

lemma quiet_open_w: "quiet (open_w p)"
  by (auto simp: quiet_def open_w_def split: option.splits if_splits)

lemma quiet_file_write: "quiet (file_write p s)"
  by (auto simp: quiet_def file_write_def split: option.splits node.splits)

lemma quiet_read_text: "quiet (read_text p)"
  by (auto simp: quiet_def read_text_def split: option.splits node.splits)

lemma quiet_jinja2_Template: "quiet (jinja2_Template e s)"
  by (auto simp: quiet_def jinja2_Template_def ret_def raise_def split: if_splits)

lemma quiet_template_render: "quiet (template_render e s b)"
  by (auto simp: quiet_def template_render_def ret_def raise_def split: option.splits)

lemmas quiet_intros = quiet_and_then quiet_seq quiet_if quiet_ret quiet_sys_exit quiet_print
  quiet_os_path_exists quiet_check_files quiet_os_mkdir quiet_open_w quiet_file_write
  quiet_read_text quiet_jinja2_Template quiet_template_render

lemma subprocess_run_returns:
  "subprocess_run e argv cwd chk w = (Inr n, w') \<Longrightarrow>
   stdin w' = stdin w \<and> trace w' = trace w @ [(argv, cwd)]"
  by (auto simp: subprocess_run_def split: option.splits node.splits outcome.splits
      prod.splits if_splits)

lemma input_returns:
  "input prompt w = (Inr l, w') \<Longrightarrow> stdin w = l # stdin w' \<and> trace w' = trace w"
  by (auto simp: input_def split: list.splits)

lemmas quiet_steps =
  quietD [OF quiet_print] quietD [OF quiet_os_path_exists] quietD [OF quiet_check_files]
  quietD [OF quiet_os_mkdir] quietD [OF quiet_open_w] quietD [OF quiet_file_write]
  quietD [OF quiet_read_text] quietD [OF quiet_jinja2_Template]
  quietD [OF quiet_template_render] quietD [OF quiet_ret] quietD [OF quiet_sys_exit]

lemma after_quiet_seq:
  assumes "seq m n w = (Inr b, w')" and "quiet m"
  obtains w1 where "stdin w1 = stdin w" and "trace w1 = trace w" and "n w1 = (Inr b, w')"
  using assms by (elim seq_returns) (auto dest: quietD)

lemma after_quiet_and_then:
  assumes "and_then m f w = (Inr b, w')" and "quiet m"
  obtains a w1 where "stdin w1 = stdin w" and "trace w1 = trace w" and "f a w1 = (Inr b, w')"
  using assms by (elim and_then_returns) (auto dest: quietD)

lemma issuance_trace:
  assumes "generate_server_certs e pki_name server_domain w = (Inr (), w')"
  shows "\<exists>keystore_password. stdin w = keystore_password # stdin w' \<and>
    trace w' = trace w @ issuance_commands pki_name server_domain keystore_password"
  using assms
  unfolding generate_server_certs_def Let_def issuance_commands_def server_working_directory_def
  apply -
  apply ((erule after_quiet_seq after_quiet_and_then, (intro quiet_intros; fail))+)
  apply (elim seq_returns and_then_returns)
  apply (drule subprocess_run_returns input_returns quiet_steps)+
  apply simp
  apply metis
  done


section \<open>The keystore after issuance\<close>

lemma put_file_there: "node_at (put_file (Some k) c t) k \<noteq> None"
  by (auto simp: put_file_def node_at_def)

lemma put_outputs_there:
  "name \<in> set names \<Longrightarrow> locate_in t cwd name = Some k \<Longrightarrow>
   node_at (put_outputs e argv cwd names t) k \<noteq> None"
proof (induction names arbitrary: t)
  case Nil
  then show ?case by simp
next
  case (Cons n names)
  let ?t1 = "put_file (locate_in t cwd n) (produced e argv n) t"
  have step: "grows t ?t1"
    by (rule grows_put_file)
  show ?case
  proof (cases "n = name")
    case True
    with Cons.prems(2) have "node_at ?t1 k \<noteq> None"
      by (simp add: put_file_there del: not_None_eq)
    moreover have "grows ?t1 (put_outputs e argv cwd names ?t1)"
      by (rule grows_put_outputs)
    ultimately have "node_at (put_outputs e argv cwd names ?t1) k \<noteq> None"
      unfolding grows_def by blast
    then show ?thesis by simp
  next
    case False
    with Cons.prems(1) have "name \<in> set names"
      by simp
    moreover have "locate_in ?t1 cwd name = Some k"
      using grows_keeps [OF step] Cons.prems(2) by (rule locate_in_kept)
    ultimately have "node_at (put_outputs e argv cwd names ?t1) k \<noteq> None"
      by (rule Cons.IH)
    then show ?thesis by simp
  qed
qed

lemma keystore_among_outputs:
  "''keystore.jks'' \<in> set (outputs (openssl_convert_to_jks server_domain keystore_password))"
  by (simp add: openssl_convert_to_jks_def output_flags_def)

text \<open>The two keystore files, named from the script and from a process in the directory.\<close>

lemma keystore_keys:
  assumes "locate t d = Some kd" and "node_at t kd = Some Dir"
  shows "locate t (d @ ''/keystore.jks'') = Some (kd @ [''keystore.jks''])"
    and "locate t (d @ ''/keystore.pkcs12'') = Some (kd @ [''keystore.pkcs12''])"
    and "locate_in t (Some d) ''keystore.jks'' = Some (kd @ [''keystore.jks''])"
    and "locate_in t (Some d) ''keystore.pkcs12'' = Some (kd @ [''keystore.pkcs12''])"
proof -
  from assms(1) have "d \<noteq> []"
    by (auto simp: locate_def split: if_splits)
  with assms show "locate t (d @ ''/keystore.jks'') = Some (kd @ [''keystore.jks''])"
    and "locate t (d @ ''/keystore.pkcs12'') = Some (kd @ [''keystore.pkcs12''])"
    by (simp_all add: locate_child walk_def)
  from assms show "locate_in t (Some d) ''keystore.jks'' = Some (kd @ [''keystore.jks''])"
    and "locate_in t (Some d) ''keystore.pkcs12'' = Some (kd @ [''keystore.pkcs12''])"
    by (simp_all add: locate_in_def walk_def)
qed

lemma runs_in_directory:
  assumes "subprocess_run e argv (Some d) chk w = (Inr n, w1)"
  obtains kd where "locate (fs w) d = Some kd" and "node_at (fs w) kd = Some Dir"
  using assms
  by (auto simp: subprocess_run_def lookup_def split: option.splits node.splits)

lemma convert_leaves_keystore:
  assumes "subprocess_run e (openssl_convert_to_jks server_domain keystore_password)
             (Some d) True w = (Inr n, w1)"
  shows "\<exists>kd. locate (fs w1) d = Some kd \<and> node_at (fs w1) kd = Some Dir
    \<and> node_at (fs w1) (kd @ [''keystore.jks'']) \<noteq> None"
proof -
  let ?argv = "openssl_convert_to_jks server_domain keystore_password"
  have long: "3 < length ?argv"
    by (simp add: openssl_convert_to_jks_def)
  from assms obtain kd where dir: "locate (fs w) d = Some kd" "node_at (fs w) kd = Some Dir"
    by (rule runs_in_directory)
  from assms have tree: "fs w1 = put_outputs e ?argv (Some d) (outputs ?argv) (fs w)"
    by (auto simp: subprocess_run_def run_program_long [OF long]
        split: option.splits node.splits outcome.splits if_splits)
  have "grows (fs w) (fs w1)"
    unfolding tree by (rule grows_put_outputs)
  then have "keeps_dirs (fs w) (fs w1)"
    by (rule grows_keeps)
  then have "locate (fs w1) d = Some kd" and "node_at (fs w1) kd = Some Dir"
    using dir by (rule directory_kept)+
  moreover have "node_at (fs w1) (kd @ [''keystore.jks'']) \<noteq> None"
    unfolding tree
    using keystore_among_outputs keystore_keys(3) [OF dir]
    by (rule put_outputs_there)
  ultimately show ?thesis by blast
qed

lemma rm_removes:
  assumes "subprocess_run e [''rm'', ''keystore.pkcs12''] (Some d) True w = (Inr n, w1)"
    and "locate (fs w) d = Some kd" and "node_at (fs w) kd = Some Dir"
  shows "fs w1 = (fs w)(kd @ [''keystore.pkcs12''] := None)"
    and "node_at (fs w) (kd @ [''keystore.pkcs12'']) \<noteq> Some Dir"
  using assms keystore_keys(4) [OF assms(2,3)]
  by (auto simp: subprocess_run_def run_program_def
      split: option.splits node.splits outcome.splits if_splits)

lemma issuance_tail_nodes:
  assumes "subprocess_run e (openssl_convert_to_jks server_domain keystore_password)
             (Some d) True w1 = (Inr a, w2)"
    and "subprocess_run e [''rm'', ''keystore.pkcs12''] (Some d) True w2 = (Inr b, w3)"
    and "print s w3 = (Inr c, w')"
  shows "path_exists w' (d @ ''/keystore.jks'') \<and> \<not> path_exists w' (d @ ''/keystore.pkcs12'')"
proof -
  from convert_leaves_keystore [OF assms(1)] obtain kd where
    dir: "locate (fs w2) d = Some kd" "node_at (fs w2) kd = Some Dir"
    and jks: "node_at (fs w2) (kd @ [''keystore.jks'']) \<noteq> None"
    by blast
  have "fs w3 = (fs w2)(kd @ [''keystore.pkcs12''] := None)"
    and regular: "node_at (fs w2) (kd @ [''keystore.pkcs12'']) \<noteq> Some Dir"
    using assms(2) dir by (rule rm_removes)+
  moreover have "fs w' = fs w3"
    using assms(3) by (rule print_fs)
  ultimately have tree: "fs w' = (fs w2)(kd @ [''keystore.pkcs12''] := None)"
    by simp
  have "keeps_dirs (fs w2) (fs w')"
    using regular unfolding tree by (auto simp: keeps_dirs_def node_at_def split: if_splits)
  then have dir': "locate (fs w') d = Some kd" "node_at (fs w') kd = Some Dir"
    using dir by (rule directory_kept)+
  have "node_at (fs w') (kd @ [''keystore.jks'']) \<noteq> None"
    using jks unfolding tree by (auto simp: node_at_def split: if_splits)
  moreover have "node_at (fs w') (kd @ [''keystore.pkcs12'']) = None"
    unfolding tree by (auto simp: node_at_def)
  ultimately show ?thesis
    unfolding path_exists_def lookup_def keystore_keys(1,2) [OF dir'] by simp
qed

lemma issuance_nodes:
  assumes "generate_server_certs e pki_name server_domain w = (Inr (), w')"
  shows "path_exists w' (server_working_directory pki_name server_domain @ ''/keystore.jks'')
    \<and> \<not> path_exists w' (server_working_directory pki_name server_domain @ ''/keystore.pkcs12'')"
  using assms
  unfolding generate_server_certs_def Let_def server_working_directory_def
  by (elim seq_returns and_then_returns) (rule issuance_tail_nodes; assumption)

text \<open>
  C8. When issuance returns, \<open>keystore.jks\<close> exists in the domain's directory and
  \<open>keystore.pkcs12\<close> does not: the processes launched are the signing, the PKCS#12
  export, the conversion to the Java keystore and, last, the removal of the PKCS#12
  bundle.
\<close>

theorem issuance_leaves_keystore:
  assumes "generate_server_certs e pki_name server_domain w = (Inr (), w')"
  shows "path_exists w' (server_working_directory pki_name server_domain @ ''/keystore.jks'')
    \<and> \<not> path_exists w' (server_working_directory pki_name server_domain @ ''/keystore.pkcs12'')
    \<and> (\<exists>keystore_password. trace w' =
          trace w @ issuance_commands pki_name server_domain keystore_password)"
proof -
  from issuance_trace [OF assms] have "\<exists>keystore_password. trace w' =
      trace w @ issuance_commands pki_name server_domain keystore_password"
    by blast
  with issuance_nodes [OF assms] show ?thesis
    by simp
qed

lemma example_issue_returns:
  "generate_server_certs example_env ''example'' ''svc.example.com'' anchored_world =
     (Inr (), issued_world)"
proof -
  have "fst (generate_server_certs example_env ''example'' ''svc.example.com'' anchored_world)
      = Inr ()"
    by code_simp
  then show ?thesis
    by (simp add: issued_world_def prod_eq_iff)
qed

theorem issuance_leaves_keystore_witness:
  "generate_server_certs example_env ''example'' ''svc.example.com'' anchored_world =
     (Inr (), issued_world)
   \<and> path_exists issued_world
         (server_working_directory ''example'' ''svc.example.com'' @ ''/keystore.jks'')
   \<and> \<not> path_exists issued_world
         (server_working_directory ''example'' ''svc.example.com'' @ ''/keystore.pkcs12'')
   \<and> (\<exists>keystore_password. trace issued_world =
          trace anchored_world @
          issuance_commands ''example'' ''svc.example.com'' keystore_password)"
  using issuance_leaves_keystore [OF example_issue_returns] example_issue_returns
  by simp

section \<open>The reuse warning\<close>

text \<open>
  C6 on the example installation. Issuance for a domain whose directory does not exist
  creates it and prints the line that it is already in use; issuance for a domain whose
  directory exists prints no such line. Both runs return.
\<close>

theorem reuse_warning_on_fresh_directory:
  "\<not> path_exists anchored_world ''pkis/example/servers/svc.example.com''
   \<and> fst (generate_server_certs example_env ''example'' ''svc.example.com'' anchored_world) =
       Inr ()
   \<and> stdout (snd (generate_server_certs example_env ''example'' ''svc.example.com''
         anchored_world)) =
       [''Error: pkis/example/servers/svc.example.com is already in use'',
        ''Generating server certificates at ./pkis/example/servers/svc.example.com'',
        ''Enter the keystore password(at least 6 characters): '',
        ''Done generating server certificates at ./pkis/example/servers/svc.example.com'']
   \<and> path_exists reissue_world ''pkis/example/servers/svc.example.com''
   \<and> fst (generate_server_certs example_env ''example'' ''svc.example.com'' reissue_world) =
       Inr ()
   \<and> stdout (snd (generate_server_certs example_env ''example'' ''svc.example.com''
         reissue_world)) =
       [''Generating server certificates at ./pkis/example/servers/svc.example.com'',
        ''Enter the keystore password(at least 6 characters): '',
        ''Done generating server certificates at ./pkis/example/servers/svc.example.com'']"
  by code_simp

section \<open>The passphrase\<close>

lemma steadyD:
  "steady m \<Longrightarrow> m w = (r, w') \<Longrightarrow> stdin w' = stdin w \<and> set (trace w) \<subseteq> set (trace w')"
  unfolding steady_def by blast

lemma steady_and_then: "steady m \<Longrightarrow> (\<And>a. steady (f a)) \<Longrightarrow> steady (and_then m f)"
  unfolding steady_def and_then_def
  by (fastforce split: prod.splits sum.splits)

lemma steady_seq: "steady m \<Longrightarrow> steady n \<Longrightarrow> steady (seq m n)"
  unfolding seq_def by (rule steady_and_then)

lemma steady_if: "steady m \<Longrightarrow> steady n \<Longrightarrow> steady (if c then m else n)"
  by simp

lemma steady_ret: "steady (ret a)"
  by (simp add: steady_def ret_def)

lemma steady_sys_exit: "steady (sys_exit n)"
  by (simp add: steady_def sys_exit_def raise_def)

lemma steady_print: "steady (print s)"
  by (auto simp: steady_def print_def)

lemma steady_os_path_exists: "steady (os_path_exists p)"
  by (auto simp: steady_def os_path_exists_def)

lemma steady_os_path_isfile: "steady (os_path_isfile p)"
  by (auto simp: steady_def os_path_isfile_def)

lemma steady_check_files: "steady (check_files files)"
  by (induction files)
     (auto intro!: steady_and_then steady_seq steady_ret steady_sys_exit steady_print
       steady_os_path_isfile)

lemma steady_os_mkdir: "steady (os_mkdir p)"
  by (auto simp: steady_def os_mkdir_def split: option.splits if_splits)

lemma steady_open_w: "steady (open_w p)"
  by (auto simp: steady_def open_w_def split: option.splits if_splits)

lemma steady_file_write: "steady (file_write p s)"
  by (auto simp: steady_def file_write_def split: option.splits node.splits)

lemma steady_read_text: "steady (read_text p)"
  by (auto simp: steady_def read_text_def split: option.splits node.splits)

lemma steady_jinja2_Template: "steady (jinja2_Template e s)"
  by (auto simp: steady_def jinja2_Template_def ret_def raise_def split: if_splits)

lemma steady_template_render: "steady (template_render e s b)"
  by (auto simp: steady_def template_render_def ret_def raise_def split: option.splits)

lemma steady_subprocess_run: "steady (subprocess_run e argv cwd chk)"
  by (auto simp: steady_def subprocess_run_def
      split: option.splits node.splits outcome.splits prod.splits if_splits)

lemmas steady_intros = steady_and_then steady_seq steady_if steady_ret steady_sys_exit
  steady_print steady_os_path_exists steady_check_files steady_os_mkdir steady_open_w
  steady_file_write steady_read_text steady_jinja2_Template steady_template_render
  steady_subprocess_run

lemma before_prompt_seq:
  assumes "seq m n w = (r, w')" and "steady m"
    and "stdin w = l # rest" and "stdin w' = rest"
  obtains w1 where "stdin w1 = l # rest" and "n w1 = (r, w')"
proof (cases "m w")
  case (Pair x w1)
  with assms(2) have same: "stdin w1 = stdin w"
    by (auto dest: steadyD)
  show ?thesis
  proof (cases x)
    case (Inl err)
    with Pair assms(1) have "w' = w1"
      by (simp add: seq_def and_then_def)
    with same assms(3,4) show ?thesis by simp
  next
    case (Inr a)
    with Pair assms(1) have "n w1 = (r, w')"
      by (simp add: seq_def and_then_def)
    with same assms(3) that show ?thesis by simp
  qed
qed

lemma before_prompt_and_then:
  assumes "and_then m f w = (r, w')" and "steady m"
    and "stdin w = l # rest" and "stdin w' = rest"
  obtains a w1 where "stdin w1 = l # rest" and "f a w1 = (r, w')"
proof (cases "m w")
  case (Pair x w1)
  with assms(2) have same: "stdin w1 = stdin w"
    by (auto dest: steadyD)
  show ?thesis
  proof (cases x)
    case (Inl err)
    with Pair assms(1) have "w' = w1"
      by (simp add: and_then_def)
    with same assms(3,4) show ?thesis by simp
  next
    case (Inr a)
    with Pair assms(1) have "f a w1 = (r, w')"
      by (simp add: and_then_def)
    with same assms(3) that show ?thesis by simp
  qed
qed

lemma at_prompt:
  assumes "and_then (input prompt) f w = (r, w')" and "stdin w = l # rest"
  obtains w1 where "f l w1 = (r, w')"
  using assms by (auto simp: and_then_def input_def)

lemma launch_then_steady:
  assumes "seq (subprocess_run e argv cwd chk) n w = (r, w')" and "steady n"
  shows "(\<exists>k p. r = Inl (OSError k p)) \<or> (argv, cwd) \<in> set (trace w')"
proof (cases "subprocess_run e argv cwd chk w")
  case (Pair x w1)
  then have launched: "(\<exists>k p. x = Inl (OSError k p)) \<or> (argv, cwd) \<in> set (trace w1)"
    by (auto simp: subprocess_run_def
        split: option.splits node.splits outcome.splits prod.splits if_splits)
  show ?thesis
  proof (cases x)
    case (Inl err)
    with Pair assms(1) have "r = Inl err" and "w' = w1"
      by (simp_all add: seq_def and_then_def)
    with launched Inl show ?thesis by simp
  next
    case (Inr a)
    with Pair assms(1) have "n w1 = (r, w')"
      by (simp add: seq_def and_then_def)
    with assms(2) have "set (trace w1) \<subseteq> set (trace w')"
      by (auto dest: steadyD)
    with launched Inr show ?thesis by auto
  qed
qed

lemma passphrase_reaches_export:
  assumes "generate_server_certs e pki_name server_domain w = (r, w')"
    and "stdin w = keystore_password # rest" and "stdin w' = rest"
  shows "(\<exists>k p. r = Inl (OSError k p)) \<or>
    (openssl_create_pkcs12_keystore pki_name server_domain keystore_password,
     Some (server_working_directory pki_name server_domain)) \<in> set (trace w')"
  using assms
  unfolding generate_server_certs_def Let_def server_working_directory_def
  apply -
  apply ((erule before_prompt_seq before_prompt_and_then,
          (intro steady_intros; fail), assumption, assumption)+)
  apply (erule at_prompt, assumption)
  apply (erule launch_then_steady)
  apply (intro steady_intros)
  done

lemma returning_before_prompt:
  assumes "seq m n w = (Inr b, w')" and "steady m" and "stdin w = l # rest"
  obtains w1 where "stdin w1 = l # rest" and "n w1 = (Inr b, w')"
  using assms by (elim seq_returns) (auto dest: steadyD)


lemma lookup_put_same:
  assumes "locate t c = Some k" and "node_at t k \<noteq> Some Dir"
  shows "lookup (t(k \<mapsto> n)) c = Some n"
proof -
  from assms(2) have "grows t (t(k \<mapsto> n))"
    by (rule grows_put)
  then have "keeps_dirs t (t(k \<mapsto> n))"
    by (rule grows_keeps)
  then have "locate (t(k \<mapsto> n)) c = Some k"
    using assms(1) by (rule locate_kept)
  moreover from assms(2) have "node_at (t(k \<mapsto> n)) k = Some n"
    by (auto simp: node_at_def split: if_splits)
  ultimately show ?thesis
    by (simp add: lookup_def)
qed

lemma lookup_put_other:
  assumes "lookup t c = Some (File x)" and "node_at t k \<noteq> Some Dir" and "k \<noteq> resolve c"
  shows "lookup (t(k \<mapsto> n)) c = Some (File x)"
proof -
  from assms(1) obtain kc where found: "locate t c = Some kc"
    and node: "node_at t kc = Some (File x)"
    by (auto simp: lookup_def split: option.splits)
  from found have "kc = resolve c"
    by (rule locate_resolve)
  with assms(3) node have "node_at (t(k \<mapsto> n)) kc = Some (File x)"
    by (auto simp: node_at_def split: if_splits)
  moreover from assms(2) have "keeps_dirs t (t(k \<mapsto> n))"
    by (intro grows_keeps grows_put)
  then have "locate (t(k \<mapsto> n)) c = Some kc"
    using found by (rule locate_kept)
  ultimately show ?thesis
    by (simp add: lookup_def)
qed

lemma open_w_returns:
  assumes "open_w p w = (Inr u, w')"
  obtains "locate (fs w) p = Some (resolve p)" and "node_at (fs w) (resolve p) \<noteq> Some Dir"
    and "fs w' = (fs w)(resolve p \<mapsto> File [])"
proof -
  from assms obtain k where found: "locate (fs w) p = Some k"
    and "node_at (fs w) k \<noteq> Some Dir" and "fs w' = (fs w)(k \<mapsto> File [])"
    by (auto simp: open_w_def split: option.splits if_splits)
  moreover from found have "k = resolve p"
    by (rule locate_resolve)
  ultimately show ?thesis
    using that by simp
qed

lemma file_write_returns:
  assumes "file_write p s w = (Inr u, w')"
  obtains c where "locate (fs w) p = Some (resolve p)"
    and "node_at (fs w) (resolve p) = Some (File c)"
    and "fs w' = (fs w)(resolve p \<mapsto> File (c @ s))"
proof -
  from assms obtain k c where found: "locate (fs w) p = Some k"
    and "node_at (fs w) k = Some (File c)" and "fs w' = (fs w)(k \<mapsto> File (c @ s))"
    by (auto simp: file_write_def split: option.splits node.splits)
  moreover from found have "k = resolve p"
    by (rule locate_resolve)
  ultimately show ?thesis
    using that by simp
qed

lemma file_kept_open_w:
  assumes "open_w h w = (Inr u, w')" and "resolve h \<noteq> resolve c"
    and "lookup (fs w) c = Some (File x)"
  shows "lookup (fs w') c = Some (File x)"
  using assms(1)
proof (rule open_w_returns)
  assume "node_at (fs w) (resolve h) \<noteq> Some Dir" and "fs w' = (fs w)(resolve h \<mapsto> File [])"
  with assms(2,3) show ?thesis
    by (simp add: lookup_put_other)
qed

lemma file_kept_file_write:
  assumes "file_write h s w = (Inr u, w')" and "resolve h \<noteq> resolve c"
    and "lookup (fs w) c = Some (File x)"
  shows "lookup (fs w') c = Some (File x)"
  using assms(1)
proof (rule file_write_returns)
  fix d
  assume "node_at (fs w) (resolve h) = Some (File d)"
    and "fs w' = (fs w)(resolve h \<mapsto> File (d @ s))"
  with assms(2,3) show ?thesis
    by (simp add: lookup_put_other)
qed

lemma resolve_child:
  assumes "d \<noteq> []"
  shows "resolve (d @ CHR ''/'' # name) = foldl walk (resolve d) (components name)"
  using assms by (simp add: resolve_def origin_child components_slash)

lemma deployment_files_apart:
  "resolve (DEP_DIR @ ''/'' @ deployment_name @ ''/host_additions'') \<noteq>
   resolve (DEP_DIR @ ''/'' @ deployment_name @ ''/docker-compose.yaml'')"
proof -
  let ?d = "DEP_DIR @ ''/'' @ deployment_name"
  have "?d \<noteq> []"
    by (simp add: DEP_DIR_def)
  from resolve_child [OF this, of "''host_additions''"]
    resolve_child [OF this, of "''docker-compose.yaml''"]
  show ?thesis
    by (simp add: walk_def)
qed

lemma compose_written:
  assumes "open_w c w1 = (Inr u1, w2)"
    and "template_render e template bindings w2 = (Inr text, w3)"
    and "file_write c text w3 = (Inr u2, w4)"
    and "open_w h w4 = (Inr u3, w5)"
    and "file_write h s w5 = (Inr u4, w6)"
    and "print m w6 = (Inr u5, w')"
    and "resolve h \<noteq> resolve c"
  shows "jinja_render e template bindings = Some text \<and> lookup (fs w') c = Some (File text)"
proof -
  from assms(1) have "lookup (fs w2) c = Some (File [])"
    by (rule open_w_returns) (simp add: lookup_put_same)
  moreover from assms(2) have rendered: "jinja_render e template bindings = Some text"
    and "w3 = w2"
    by (auto simp: template_render_def ret_def raise_def split: option.splits)
  ultimately have empty: "lookup (fs w3) c = Some (File [])"
    by simp
  have "lookup (fs w4) c = Some (File text)"
    using assms(3)
  proof (rule file_write_returns)
    fix c0
    assume found: "locate (fs w3) c = Some (resolve c)"
      and node: "node_at (fs w3) (resolve c) = Some (File c0)"
      and tree: "fs w4 = (fs w3)(resolve c \<mapsto> File (c0 @ text))"
    from found node empty have "c0 = []"
      by (simp add: lookup_def)
    moreover from node have "node_at (fs w3) (resolve c) \<noteq> Some Dir"
      by simp
    ultimately show ?thesis
      unfolding tree using lookup_put_same [OF found] by simp
  qed
  with assms(4,7) have "lookup (fs w5) c = Some (File text)"
    by (rule file_kept_open_w)
  with assms(5,7) have "lookup (fs w6) c = Some (File text)"
    by (rule file_kept_file_write)
  with assms(6) have "lookup (fs w') c = Some (File text)"
    by (auto simp: print_def)
  with rendered show ?thesis by simp
qed

lemma provisioning_renders:
  assumes "generate_deployment e deployment_name https_port pki_name domain_name w = (Inr (), w')"
    and "stdin w = keystore_password # rest"
  shows "\<exists>template text.
      jinja_render e template
        [(''HTTPS_PORT_BIND'', https_port), (''KEYSTORE_PASSWORD'', keystore_password),
         (''PKI_NAME'', pki_name), (''DOMAIN_NAME'', domain_name)] = Some text
      \<and> lookup (fs w') (DEP_DIR @ ''/'' @ deployment_name @ ''/docker-compose.yaml'') =
          Some (File text)"
  using assms unfolding generate_deployment_def Let_def
  apply -
  apply ((erule returning_before_prompt, (intro steady_intros; fail), assumption)+)
  apply (erule at_prompt, assumption)
  apply (elim seq_returns and_then_returns)
  apply (drule (5) compose_written)
   apply (rule deployment_files_apart)
  apply blast
  done

text \<open>
  C7, as the code has it. The script checks no length. At issuance, once the passphrase
  has been read from the operator, the PKCS#12 export is launched with it, whatever its
  length and however issuance ends, unless the export cannot be started at all. At
  provisioning, whenever provisioning returns, the compose definition on disk is the
  template rendered with the passphrase that was read, whatever its length.
\<close>

theorem passphrase_used_whatever_its_length:
  assumes "stdin w = keystore_password # rest"
  shows "(generate_server_certs e pki_name server_domain w = (r, w') \<and> stdin w' = rest \<longrightarrow>
      (\<exists>k p. r = Inl (OSError k p)) \<or>
      (openssl_create_pkcs12_keystore pki_name server_domain keystore_password,
       Some (server_working_directory pki_name server_domain)) \<in> set (trace w'))
    \<and> (generate_deployment e deployment_name https_port pki_name domain_name w = (Inr (), w'') \<longrightarrow>
      (\<exists>template text.
        jinja_render e template
          [(''HTTPS_PORT_BIND'', https_port), (''KEYSTORE_PASSWORD'', keystore_password),
           (''PKI_NAME'', pki_name), (''DOMAIN_NAME'', domain_name)] = Some text
        \<and> lookup (fs w'') (DEP_DIR @ ''/'' @ deployment_name @ ''/docker-compose.yaml'') =
            Some (File text)))"
  using assms passphrase_reaches_export provisioning_renders by blast

lemma short_passphrase_issuance:
  "fst (generate_server_certs strict_env ''example'' ''svc.example.com'' anchored_world) =
     Inl (CalledProcessError 1 (openssl_convert_to_jks ''svc.example.com'' ''abc''))
   \<and> stdin (snd (generate_server_certs strict_env ''example'' ''svc.example.com''
         anchored_world)) = [''abc'']"
  by code_simp

lemma short_passphrase_provisioning:
  "fst (generate_deployment strict_env ''web'' ''8443'' ''example'' ''svc.example.com''
     example_world) = Inr ()"
  by code_simp

theorem passphrase_used_whatever_its_length_witness:
  "(openssl_create_pkcs12_keystore ''example'' ''svc.example.com'' ''abc'',
    Some (server_working_directory ''example'' ''svc.example.com''))
     \<in> set (trace (snd (generate_server_certs strict_env ''example'' ''svc.example.com''
         anchored_world)))
   \<and> (\<exists>template text.
        jinja_render strict_env template
          [(''HTTPS_PORT_BIND'', ''8443''), (''KEYSTORE_PASSWORD'', ''abc''),
           (''PKI_NAME'', ''example''), (''DOMAIN_NAME'', ''svc.example.com'')] = Some text
        \<and> lookup (fs (snd (generate_deployment strict_env ''web'' ''8443'' ''example''
              ''svc.example.com'' example_world)))
            (DEP_DIR @ ''/'' @ ''web'' @ ''/docker-compose.yaml'') =
            Some (File text))"
proof -
  let ?issue = "generate_server_certs strict_env ''example'' ''svc.example.com'' anchored_world"
  let ?provision = "generate_deployment strict_env ''web'' ''8443'' ''example''
      ''svc.example.com'' example_world"
  have typed: "stdin anchored_world = ''abc'' # [''abc'']"
    and typed': "stdin example_world = ''abc'' # [''abc'']"
    by (simp_all add: anchored_world_def example_world_def)
  have "?issue = (fst ?issue, snd ?issue)"
    by simp
  moreover have "stdin (snd ?issue) = [''abc'']"
    using short_passphrase_issuance by simp
  ultimately have "?issue = (fst ?issue, snd ?issue) \<and> stdin (snd ?issue) = [''abc'']"
    by (rule conjI)
  with passphrase_used_whatever_its_length [OF typed, where e = strict_env
      and pki_name = "''example''" and server_domain = "''svc.example.com''"
      and r = "fst ?issue" and w' = "snd ?issue"] short_passphrase_issuance
  have first: "(openssl_create_pkcs12_keystore ''example'' ''svc.example.com'' ''abc'',
      Some (server_working_directory ''example'' ''svc.example.com''))
       \<in> set (trace (snd ?issue))"
    by auto
  have "?provision = (Inr (), snd ?provision)"
    using short_passphrase_provisioning by (simp add: prod_eq_iff)
  with passphrase_used_whatever_its_length [OF typed', where e = strict_env
      and deployment_name = "''web''" and https_port = "''8443''"
      and pki_name = "''example''" and domain_name = "''svc.example.com''"
      and w'' = "snd ?provision"]
  have "\<exists>template text.
        jinja_render strict_env template
          [(''HTTPS_PORT_BIND'', ''8443''), (''KEYSTORE_PASSWORD'', ''abc''),
           (''PKI_NAME'', ''example''), (''DOMAIN_NAME'', ''svc.example.com'')] = Some text
        \<and> lookup (fs (snd ?provision)) (DEP_DIR @ ''/'' @ ''web'' @ ''/docker-compose.yaml'') =
            Some (File text)"
    by blast
  with first show ?thesis by blast
qed

text \<open>
  C7, as stated, fails for the passphrase \<open>abc\<close> of three characters: at issuance
  it is passed to the PKCS#12 export and to \<open>keytool\<close>, whose refusal, not a check of
  the script, ends the run; at provisioning it is rendered into the compose definition and
  provisioning returns.
\<close>

theorem short_passphrase_counterexample:
  "hd (stdin anchored_world) = ''abc''
   \<and> trace (snd (generate_server_certs strict_env ''example'' ''svc.example.com''
         anchored_world)) =
       map (\<lambda>argv. (argv, Some ''./pkis/example/servers/svc.example.com''))
         [openssl_create_ssl ''example'' ''svc.example.com'',
          openssl_create_pkcs12_keystore ''example'' ''svc.example.com'' ''abc'',
          openssl_convert_to_jks ''svc.example.com'' ''abc'']
   \<and> fst (generate_server_certs strict_env ''example'' ''svc.example.com'' anchored_world) =
       Inl (CalledProcessError 1 (openssl_convert_to_jks ''svc.example.com'' ''abc''))
   \<and> hd (stdin example_world) = ''abc''
   \<and> fst (generate_deployment strict_env ''web'' ''8443'' ''example'' ''svc.example.com''
         example_world) = Inr ()
   \<and> fs (snd (generate_deployment strict_env ''web'' ''8443'' ''example'' ''svc.example.com''
         example_world)) [''deployments'', ''web'', ''docker-compose.yaml''] =
       Some (File ''compose 8443abcexamplesvc.example.com'')"
  by code_simp

section \<open>Text of the name-resolution file\<close>

lemma universal_newlines_plain: "CR \<notin> set s \<Longrightarrow> universal_newlines s = s"
  by (induction s rule: universal_newlines.induct) auto

lemma universal_newlines_after_LF:
  "universal_newlines (a @ LF # b) = universal_newlines (a @ [LF]) @ universal_newlines b"
proof (induction a rule: universal_newlines.induct)
  case 1
  then show ?case by (cases b) simp_all
next
  case (2 c)
  then show ?case by (cases b) simp_all
next
  case (3 c d cs)
  then show ?case by simp
qed

lemma universal_newlines_snoc_LF:
  "universal_newlines (s @ [LF]) =
     (if s \<noteq> [] \<and> last s = CR then universal_newlines s else universal_newlines s @ [LF])"
  by (induction s rule: universal_newlines.induct) auto

lemma universal_newlines_ends_LF:
  "universal_newlines (s @ [LF]) \<noteq> [] \<and> last (universal_newlines (s @ [LF])) = LF"
  by (induction s rule: universal_newlines.induct) auto

lemma iter_lines_Nil: "iter_lines s = [] \<longleftrightarrow> s = []"
  by (cases s) (auto split: list.splits)

lemma concat_iter_lines: "concat (iter_lines s) = s"
  by (induction s) (auto split: list.splits)

lemma iter_lines_one: "s \<noteq> [] \<Longrightarrow> LF \<notin> set s \<Longrightarrow> iter_lines s = [s]"
proof (induction s)
  case Nil
  then show ?case by simp
next
  case (Cons c s)
  show ?case
  proof (cases "s = []")
    case True
    with Cons.prems show ?thesis by simp
  next
    case False
    with Cons have "iter_lines s = [s]" by simp
    with Cons.prems show ?thesis by auto
  qed
qed

lemma iter_lines_after_LF: "iter_lines (a @ LF # b) = iter_lines (a @ [LF]) @ iter_lines b"
  by (induction a) (auto split: list.splits simp: iter_lines_Nil)

lemma iter_lines_snoc_LF:
  "iter_lines (s @ [LF]) =
     (if s = [] \<or> last s = LF then iter_lines s @ [[LF]]
      else butlast (iter_lines s) @ [last (iter_lines s) @ [LF]])"
  by (induction s) (auto split: list.splits simp: iter_lines_Nil)

lemma sublist_before_LF: "LF \<notin> set e \<Longrightarrow> sublist e (l @ [LF]) \<Longrightarrow> sublist e l"
  by (auto simp: sublist_append prefix_Cons sublist_Cons_right)

lemma not_sublist_LF: "e \<noteq> [] \<Longrightarrow> LF \<notin> set e \<Longrightarrow> \<not> sublist e [LF]"
  by (auto simp: sublist_Cons_right prefix_Cons)

lemma lines_kept:
  assumes "e \<noteq> []" and "LF \<notin> set e"
    and "\<forall>l \<in> set (iter_lines (universal_newlines prior)). \<not> sublist e l"
  shows "\<forall>l \<in> set (iter_lines (universal_newlines (prior @ [LF]))). \<not> sublist e l"
proof (cases "prior \<noteq> [] \<and> last prior = CR")
  case True
  with assms(3) show ?thesis
    by (simp add: universal_newlines_snoc_LF)
next
  case False
  let ?s = "universal_newlines prior"
  have eq: "universal_newlines (prior @ [LF]) = ?s @ [LF]"
    using False by (simp add: universal_newlines_snoc_LF)
  show ?thesis
  proof (cases "?s = [] \<or> last ?s = LF")
    case True
    then have "iter_lines (?s @ [LF]) = iter_lines ?s @ [[LF]]"
      by (simp add: iter_lines_snoc_LF)
    with assms show ?thesis
      unfolding eq by (auto dest: not_sublist_LF)
  next
    case False
    then have joined: "iter_lines (?s @ [LF]) =
        butlast (iter_lines ?s) @ [last (iter_lines ?s) @ [LF]]"
      by (simp add: iter_lines_snoc_LF)
    from False have "iter_lines ?s \<noteq> []"
      by (simp add: iter_lines_Nil)
    then have "last (iter_lines ?s) \<in> set (iter_lines ?s)"
      by simp
    with assms(3) have "\<not> sublist e (last (iter_lines ?s))"
      by blast
    with assms(2) have "\<not> sublist e (last (iter_lines ?s) @ [LF])"
      by (blast dest: sublist_before_LF)
    with assms(3) show ?thesis
      unfolding eq joined by (auto dest: in_set_butlastD)
  qed
qed

text \<open>What the interrupt handler writes back, as a function of the text it reads.\<close>

lemma deregistered_text:
  assumes "e \<noteq> []" and "LF \<notin> set e" and "CR \<notin> set e"
    and "\<forall>l \<in> set (iter_lines (universal_newlines prior)). \<not> sublist e l"
  shows "concat (filter (\<lambda>l. \<not> sublist e l)
           (iter_lines (universal_newlines (prior @ LF # e)))) =
         universal_newlines (prior @ [LF])"
proof -
  let ?q = "universal_newlines (prior @ [LF])"
  have "?q \<noteq> []" and "last ?q = LF"
    using universal_newlines_ends_LF [of prior] by simp_all
  then have q: "?q = butlast ?q @ [LF]"
    using append_butlast_last_id [of ?q] by simp
  have "universal_newlines (prior @ LF # e) = ?q @ e"
    using assms(3) universal_newlines_after_LF [of prior e]
    by (simp add: universal_newlines_plain)
  also have "\<dots> = butlast ?q @ LF # e"
    using q by (metis append.assoc append_Cons append_Nil)
  finally have "iter_lines (universal_newlines (prior @ LF # e)) =
      iter_lines (butlast ?q @ [LF]) @ iter_lines e"
    using iter_lines_after_LF [of "butlast ?q" e] by simp
  then have "iter_lines (universal_newlines (prior @ LF # e)) = iter_lines ?q @ [e]"
    using assms(1,2) q by (simp add: iter_lines_one)
  moreover have "filter (\<lambda>l. \<not> sublist e l) (iter_lines ?q) = iter_lines ?q"
    using lines_kept [OF assms(1,2,4)] by (simp add: filter_id_conv)
  ultimately show ?thesis
    by (simp add: concat_iter_lines)
qed

section \<open>Activation\<close>

lemma except_KeyboardInterrupt_caught:
  "m w = (Inl KeyboardInterrupt, w1) \<Longrightarrow> except_KeyboardInterrupt m h w = h w1"
  by (simp add: except_KeyboardInterrupt_def)


text \<open>The name-resolution file and the temporary file are looked up in \<open>/etc\<close>.\<close>

lemma lookup_hosts:
  "lookup t ''/etc/hosts'' =
     (if t [''/'', ''etc''] = Some Dir then t [''/'', ''etc'', ''hosts''] else None)"
  "lookup t ''/etc/hosts.tmp'' =
     (if t [''/'', ''etc''] = Some Dir then t [''/'', ''etc'', ''hosts.tmp''] else None)"
  by (simp_all add: lookup_def locate_def origin_def walk_def node_at_def)

lemma locate_hosts:
  "t [''/'', ''etc''] = Some Dir \<Longrightarrow> locate t ''/etc/hosts'' = Some [''/'', ''etc'', ''hosts'']"
  "t [''/'', ''etc''] = Some Dir \<Longrightarrow>
   locate t ''/etc/hosts.tmp'' = Some [''/'', ''etc'', ''hosts.tmp'']"
  by (simp_all add: locate_def origin_def walk_def node_at_def)

lemma parent_directory:
  assumes "d \<noteq> []" and "lookup t (d @ CHR ''/'' # name) \<noteq> None"
  shows "lookup t d = Some Dir"
proof -
  from assms obtain kd k where "locate t d = Some kd"
    and "descend t kd (components name) = Some k"
    by (auto simp: lookup_def locate_child split: option.splits)
  then show ?thesis
    using components_not_Nil [of name]
    by (cases "components name") (auto simp: lookup_def split: if_splits)
qed

lemma print_run: "\<exists>w'. print s w = (Inr (), w') \<and> fs w' = fs w"
  by (simp add: print_def)

lemma file_write_run:
  assumes "locate (fs w) p = Some k" and "node_at (fs w) k = Some (File c)"
  shows "\<exists>w'. file_write p s w = (Inr (), w') \<and> fs w' = (fs w)(k \<mapsto> File (c @ s))"
  using assms by (simp add: file_write_def)

lemma node_at_put: "node_at t k \<noteq> Some Dir \<Longrightarrow> node_at (t(k \<mapsto> n)) k = Some n"
  by (auto simp: node_at_def split: if_splits)

lemma os_path_join_not_Nil: "a \<noteq> [] \<Longrightarrow> os_path_join a b \<noteq> []"
  by (cases b) (auto simp: os_path_join_def)

lemma open_w_run:
  assumes "locate (fs w) p = Some k" and "node_at (fs w) k \<noteq> Some Dir"
  shows "\<exists>w'. open_w p w = (Inr (), w') \<and> fs w' = (fs w)(k \<mapsto> File [])"
  using assms by (simp add: open_w_def)

lemma copy_lines_without_run:
  "locate (fs w) p = Some k \<Longrightarrow> node_at (fs w) k = Some (File c) \<Longrightarrow>
   \<exists>w'. copy_lines_without e p lines w = (Inr (), w') \<and>
        fs w' = (fs w)(k \<mapsto> File (c @ concat (filter (\<lambda>l. \<not> sublist e l) lines)))"
proof (induction lines arbitrary: w c)
  case Nil
  then have "fs w k = Some (File c)"
    by (auto simp: node_at_def split: if_splits)
  then show ?case by (simp add: ret_def fun_upd_idem)
next
  case (Cons line lines)
  show ?case
  proof (cases "sublist e line")
    case True
    from Cons.IH [OF Cons.prems] True show ?thesis
      by (simp add: seq_def and_then_def ret_def)
  next
    case False
    from file_write_run [OF Cons.prems] obtain w1 where
      step: "file_write p line w = (Inr (), w1)" and
      tree: "fs w1 = (fs w)(k \<mapsto> File (c @ line))"
      by blast
    from Cons.prems(2) have regular: "node_at (fs w) k \<noteq> Some Dir"
      by simp
    then have "keeps_dirs (fs w) (fs w1)"
      unfolding tree by (intro grows_keeps grows_put)
    then have "locate (fs w1) p = Some k"
      using Cons.prems(1) by (rule locate_kept)
    moreover from regular have "node_at (fs w1) k = Some (File (c @ line))"
      unfolding tree by (rule node_at_put)
    ultimately obtain w' where
      "copy_lines_without e p lines w1 = (Inr (), w')" and
      "fs w' = (fs w1)(k \<mapsto>
         File ((c @ line) @ concat (filter (\<lambda>l. \<not> sublist e l) lines)))"
      using Cons.IH by blast
    with tree False show ?thesis
      by (auto simp: seq_Inr [where m = "file_write p line", OF step] fun_upd_def)
  qed
qed

lemma interrupted_run:
  assumes "lookup (fs w) d = Some Dir" and "proc e [prog, a] = Interrupted"
    and "prog \<noteq> ''rm''"
  shows "\<exists>w'. subprocess_run e [prog, a] (Some d) chk w = (Inl KeyboardInterrupt, w') \<and>
    fs w' = fs w"
  using assms by (simp add: subprocess_run_def run_program_def)

lemma mv_run:
  assumes "locate (fs w) a = Some ka" and "node_at (fs w) ka = Some (File c)"
    and "locate (fs w) b = Some kb" and "node_at (fs w) kb = Some (File c')" and "ka \<noteq> kb"
  shows "\<exists>w'. subprocess_run e [''mv'', a, b] None True w = (Inr 0, w') \<and>
    fs w' = ((fs w)(ka := None))(kb \<mapsto> File c)"
  using assms by (simp add: subprocess_run_def run_program_def locate_in_def)

text \<open>
  Up to the launch of the child process: the registration is appended to the
  name-resolution file, after a newline, and the guarded launch and the final print remain.
\<close>

lemma activation_registers:
  assumes compose: "is_file w (os_path_join DEP_DIR deployment_name @ ''/docker-compose.yaml'')"
    and registration:
      "lookup (fs w) (os_path_join DEP_DIR deployment_name @ ''/host_additions'')
        = Some (File hosts_entry)"
    and plain: "CR \<notin> set hosts_entry"
    and etc: "fs w [''/'', ''etc''] = Some Dir"
    and hosts: "fs w [''/'', ''etc'', ''hosts''] = Some (File prior)"
  shows "\<exists>w2. fs w2 = (fs w)([''/'', ''etc'', ''hosts''] \<mapsto> File (prior @ LF # hosts_entry))
    \<and> start_deployment e deployment_name w =
      seq (except_KeyboardInterrupt
             (seq (subprocess_run e [''docker-compose'', ''up'']
                     (Some (os_path_join DEP_DIR deployment_name)) True)
                  (ret ()))
             (and_then (read_text ''/etc/hosts'') (\<lambda>hosts.
              seq (open_w ''/etc/hosts.tmp'')
             (seq (copy_lines_without hosts_entry ''/etc/hosts.tmp'' (iter_lines hosts))
             (seq (subprocess_run e [''mv'', ''/etc/hosts.tmp'', ''/etc/hosts''] None True)
                  (ret ()))))))
          (print (''Done starting the deployment '' @ deployment_name)) w2"
proof -
  let ?wd = "os_path_join DEP_DIR deployment_name"
  let ?H = "[''/'', ''etc'', ''hosts'']"
  have "?wd \<noteq> []"
    by (simp add: os_path_join_not_Nil DEP_DIR_def)
  then have dir: "lookup (fs w) ?wd = Some Dir"
    using registration parent_directory [of ?wd "fs w" "''host_additions''"] by simp
  obtain w1 where s1: "print (''Starting the deployment '' @ deployment_name) w = (Inr (), w1)"
    and f1: "fs w1 = fs w"
    using print_run by blast
  have s2: "and_then (os_path_exists ?wd) (\<lambda>exists.
             if \<not> exists then print ''Provided deployment does not exists'' else ret ()) w1
           = (Inr (), w1)"
    using dir f1 by (simp add: and_then_def os_path_exists_def path_exists_def ret_def)
  have s3: "check_files [?wd @ ''/docker-compose.yaml'', ?wd @ ''/host_additions''] w1
           = (Inr (), w1)"
    using compose registration f1
    by (simp add: and_then_def os_path_isfile_def is_file_def ret_def)
  have s4: "read_text (?wd @ ''/host_additions'') w1 = (Inr hosts_entry, w1)"
    using registration f1 plain by (simp add: read_text_def universal_newlines_plain)
  have found: "locate (fs w1) ''/etc/hosts'' = Some ?H"
    using etc f1 by (simp add: locate_hosts)
  have s5: "open_a ''/etc/hosts'' w1 = (Inr (), w1)"
    using found hosts f1 by (simp add: open_a_def node_at_def)
  obtain w2 where s6: "file_write ''/etc/hosts'' (LF # hosts_entry) w1 = (Inr (), w2)"
    and f2: "fs w2 = (fs w)(?H \<mapsto> File (prior @ LF # hosts_entry))"
    using file_write_run [OF found, of prior "LF # hosts_entry"] hosts f1
    by (auto simp: node_at_def)
  have "start_deployment e deployment_name w =
      seq (except_KeyboardInterrupt
             (seq (subprocess_run e [''docker-compose'', ''up''] (Some ?wd) True) (ret ()))
             (and_then (read_text ''/etc/hosts'') (\<lambda>hosts.
              seq (open_w ''/etc/hosts.tmp'')
             (seq (copy_lines_without hosts_entry ''/etc/hosts.tmp'' (iter_lines hosts))
             (seq (subprocess_run e [''mv'', ''/etc/hosts.tmp'', ''/etc/hosts''] None True)
                  (ret ()))))))
          (print (''Done starting the deployment '' @ deployment_name)) w2"
    unfolding start_deployment_def Let_def
    by (simp only: seq_Inr [where m = "print (''Starting the deployment '' @ deployment_name)",
          OF s1]
        seq_Inr [where m = "and_then (os_path_exists ?wd) (\<lambda>exists.
             if \<not> exists then print ''Provided deployment does not exists'' else ret ())",
          OF s2]
        seq_Inr [where m = "check_files [?wd @ ''/docker-compose.yaml'',
             ?wd @ ''/host_additions'']", OF s3]
        and_then_Inr [where m = "read_text (?wd @ ''/host_additions'')", OF s4]
        seq_Inr [where m = "open_a ''/etc/hosts''", OF s5]
        seq_Inr [where m = "file_write ''/etc/hosts'' (LF # hosts_entry)", OF s6])
  with f2 show ?thesis by blast
qed

text \<open>The interrupt handler, run on a name-resolution file that ends with the registration.\<close>

lemma handler_deregisters:
  assumes entry: "hosts_entry \<noteq> []" "LF \<notin> set hosts_entry" "CR \<notin> set hosts_entry"
    and fresh: "\<forall>line \<in> set (iter_lines (universal_newlines prior)).
          \<not> sublist hosts_entry line"
    and hosts: "fs w3 [''/'', ''etc'', ''hosts''] = Some (File (prior @ LF # hosts_entry))"
    and etc: "fs w3 [''/'', ''etc''] = Some Dir"
    and tmp: "fs w3 [''/'', ''etc'', ''hosts.tmp''] \<noteq> Some Dir"
  shows "\<exists>w6. and_then (read_text ''/etc/hosts'') (\<lambda>hosts.
              seq (open_w ''/etc/hosts.tmp'')
             (seq (copy_lines_without hosts_entry ''/etc/hosts.tmp'' (iter_lines hosts))
             (seq (subprocess_run e [''mv'', ''/etc/hosts.tmp'', ''/etc/hosts''] None True)
                  (ret ())))) w3 = (Inr (), w6)
    \<and> fs w6 = ((fs w3)([''/'', ''etc'', ''hosts.tmp''] := None))
          ([''/'', ''etc'', ''hosts''] \<mapsto> File (universal_newlines (prior @ [LF])))"
proof -
  let ?H = "[''/'', ''etc'', ''hosts'']"
  let ?T = "[''/'', ''etc'', ''hosts.tmp'']"
  have s8: "read_text ''/etc/hosts'' w3 =
      (Inr (universal_newlines (prior @ LF # hosts_entry)), w3)"
    using hosts etc by (simp add: read_text_def lookup_hosts)
  have "locate (fs w3) ''/etc/hosts.tmp'' = Some ?T"
    using etc by (rule locate_hosts)
  moreover have "node_at (fs w3) ?T \<noteq> Some Dir"
    using tmp by (simp add: node_at_def)
  ultimately obtain w4 where s9: "open_w ''/etc/hosts.tmp'' w3 = (Inr (), w4)"
    and f4: "fs w4 = (fs w3)(?T \<mapsto> File [])"
    using open_w_run by blast
  have etc4: "fs w4 [''/'', ''etc''] = Some Dir"
    using f4 etc by simp
  then have "locate (fs w4) ''/etc/hosts.tmp'' = Some ?T"
    by (rule locate_hosts)
  moreover have "node_at (fs w4) ?T = Some (File [])"
    using f4 by (simp add: node_at_def)
  ultimately obtain w5 where
    s10: "copy_lines_without hosts_entry ''/etc/hosts.tmp''
            (iter_lines (universal_newlines (prior @ LF # hosts_entry))) w4 = (Inr (), w5)"
    and f5: "fs w5 = (fs w4)(?T \<mapsto> File (universal_newlines (prior @ [LF])))"
    using copy_lines_without_run [of w4 "''/etc/hosts.tmp''" ?T "[]" hosts_entry
        "iter_lines (universal_newlines (prior @ LF # hosts_entry))"]
      deregistered_text [OF entry fresh]
    by auto
  have etc5: "fs w5 [''/'', ''etc''] = Some Dir"
    using f5 etc4 by simp
  have "locate (fs w5) ''/etc/hosts.tmp'' = Some ?T"
    and "node_at (fs w5) ?T = Some (File (universal_newlines (prior @ [LF])))"
    and "locate (fs w5) ''/etc/hosts'' = Some ?H"
    and "node_at (fs w5) ?H = Some (File (prior @ LF # hosts_entry))"
    and "?T \<noteq> ?H"
    using f5 f4 hosts etc5 by (simp_all add: locate_hosts node_at_def)
  from mv_run [OF this] obtain w6 where
    s11: "subprocess_run e [''mv'', ''/etc/hosts.tmp'', ''/etc/hosts''] None True w5 = (Inr 0, w6)"
    and f6: "fs w6 = ((fs w5)(?T := None))(?H \<mapsto> File (universal_newlines (prior @ [LF])))"
    by blast
  have "and_then (read_text ''/etc/hosts'') (\<lambda>hosts.
              seq (open_w ''/etc/hosts.tmp'')
             (seq (copy_lines_without hosts_entry ''/etc/hosts.tmp'' (iter_lines hosts))
             (seq (subprocess_run e [''mv'', ''/etc/hosts.tmp'', ''/etc/hosts''] None True)
                  (ret ())))) w3 = (Inr (), w6)"
    by (simp only: and_then_Inr [where m = "read_text ''/etc/hosts''", OF s8]
        seq_Inr [where m = "open_w ''/etc/hosts.tmp''", OF s9]
        seq_Inr [where m = "copy_lines_without hosts_entry ''/etc/hosts.tmp''
            (iter_lines (universal_newlines (prior @ LF # hosts_entry)))", OF s10]
        seq_Inr [where m = "subprocess_run e [''mv'', ''/etc/hosts.tmp'', ''/etc/hosts'']
            None True", OF s11] ret_def)
  moreover have "fs w6 = ((fs w3)(?T := None))(?H \<mapsto> File (universal_newlines (prior @ [LF])))"
    using f6 f5 f4 by simp
  ultimately show ?thesis by blast
qed

text \<open>
  C2, as the code has it. Let the deployment directory hold its two files, the
  registration record be \<open>127.0.0.1    <domain>\<close> for a domain without line breaks, and no
  line of the name-resolution file contain that text. When the child process of the
  activation is interrupted, the handler writes back every line but the registration that
  activation appended: activation returns, and the content of the file is the one before
  activation, with line ends read as newlines, followed by the separating newline, which
  stays. The temporary file is gone. Every file is the one the operating system finds under
  its name: a deployment name such as \<open>ghost/../web\<close>, with no directory \<open>ghost\<close>, names
  no deployment, and no file in it.
\<close>

theorem interrupted_activation_restores_lines:
  assumes compose: "is_file w (os_path_join DEP_DIR deployment_name @ ''/docker-compose.yaml'')"
    and registration:
      "lookup (fs w) (os_path_join DEP_DIR deployment_name @ ''/host_additions'')
        = Some (File (''127.0.0.1    '' @ domain_name))"
    and plain: "LF \<notin> set domain_name" "CR \<notin> set domain_name"
    and hosts: "lookup (fs w) ''/etc/hosts'' = Some (File prior)"
    and tmp: "lookup (fs w) ''/etc/hosts.tmp'' \<noteq> Some Dir"
    and fresh: "\<forall>line \<in> set (iter_lines (universal_newlines prior)).
          \<not> sublist (''127.0.0.1    '' @ domain_name) line"
    and interrupted: "proc e [''docker-compose'', ''up''] = Interrupted"
  shows "\<exists>w'. start_deployment e deployment_name w = (Inr (), w')
    \<and> lookup (fs w') ''/etc/hosts'' = Some (File (universal_newlines (prior @ [LF])))
    \<and> lookup (fs w') ''/etc/hosts.tmp'' = None"
proof -
  let ?wd = "os_path_join DEP_DIR deployment_name"
  let ?entry = "''127.0.0.1    '' @ domain_name"
  let ?H = "[''/'', ''etc'', ''hosts'']"
  let ?T = "[''/'', ''etc'', ''hosts.tmp'']"
  let ?body = "seq (subprocess_run e [''docker-compose'', ''up''] (Some ?wd) True) (ret ())"
  let ?handler = "and_then (read_text ''/etc/hosts'') (\<lambda>hosts.
              seq (open_w ''/etc/hosts.tmp'')
             (seq (copy_lines_without ?entry ''/etc/hosts.tmp'' (iter_lines hosts))
             (seq (subprocess_run e [''mv'', ''/etc/hosts.tmp'', ''/etc/hosts''] None True)
                  (ret ()))))"
  have entry: "?entry \<noteq> []" "LF \<notin> set ?entry" "CR \<notin> set ?entry"
    using plain by simp_all
  from hosts have etc: "fs w [''/'', ''etc''] = Some Dir"
    and content: "fs w ?H = Some (File prior)"
    by (simp_all add: lookup_hosts split: if_splits)
  from tmp etc have free: "fs w ?T \<noteq> Some Dir"
    by (simp add: lookup_hosts)
  have "?wd \<noteq> []"
    by (simp add: os_path_join_not_Nil DEP_DIR_def)
  then have dir: "lookup (fs w) ?wd = Some Dir"
    using registration parent_directory [of ?wd "fs w" "''host_additions''"] by simp
  from activation_registers [OF compose registration entry(3) etc content, of e]
  obtain w2 where f2: "fs w2 = (fs w)(?H \<mapsto> File (prior @ LF # ?entry))"
    and run: "start_deployment e deployment_name w =
      seq (except_KeyboardInterrupt ?body ?handler)
          (print (''Done starting the deployment '' @ deployment_name)) w2"
    by blast
  have "node_at (fs w) ?H \<noteq> Some Dir"
    using content by (simp add: node_at_def)
  then have "keeps_dirs (fs w) (fs w2)"
    unfolding f2 by (intro grows_keeps grows_put)
  then have cwd: "lookup (fs w2) ?wd = Some Dir"
    using dir by (rule lookup_dir_kept)
  from interrupted_run [OF cwd interrupted] obtain w3 where
    s7: "subprocess_run e [''docker-compose'', ''up''] (Some ?wd) True w2 =
           (Inl KeyboardInterrupt, w3)"
    and f3: "fs w3 = fs w2"
    by auto
  have "fs w3 ?H = Some (File (prior @ LF # ?entry))" and "fs w3 [''/'', ''etc''] = Some Dir"
    and "fs w3 ?T \<noteq> Some Dir"
    using f3 f2 etc free by simp_all
  from handler_deregisters [OF entry fresh this, of e] obtain w6 where
    handler: "?handler w3 = (Inr (), w6)"
    and f6: "fs w6 = ((fs w3)(?T := None))(?H \<mapsto> File (universal_newlines (prior @ [LF])))"
    by blast
  have launch: "?body w2 = (Inl KeyboardInterrupt, w3)"
    by (rule seq_Inl [where m = "subprocess_run e [''docker-compose'', ''up'']
          (Some ?wd) True", OF s7])
  have guarded: "except_KeyboardInterrupt ?body ?handler w2 = (Inr (), w6)"
    by (simp only: except_KeyboardInterrupt_caught [where m = ?body, OF launch] handler)
  obtain w7 where
    s12: "print (''Done starting the deployment '' @ deployment_name) w6 = (Inr (), w7)"
    and f7: "fs w7 = fs w6"
    using print_run by blast
  have "start_deployment e deployment_name w = (Inr (), w7)"
    unfolding run
    by (simp only: seq_Inr [where m = "except_KeyboardInterrupt ?body ?handler",
          OF guarded] s12)
  moreover have "fs w7 [''/'', ''etc''] = Some Dir"
    using f7 f6 f3 f2 etc by simp
  ultimately show ?thesis
    using f7 f6 by (simp add: lookup_hosts)
qed

lemma example_activation_ready:
  "is_file provisioned_world (os_path_join DEP_DIR ''web'' @ ''/docker-compose.yaml'')"
  "lookup (fs provisioned_world) (os_path_join DEP_DIR ''web'' @ ''/host_additions'')
     = Some (File (''127.0.0.1    '' @ ''svc.example.com''))"
  "LF \<notin> set ''svc.example.com''"
  "CR \<notin> set ''svc.example.com''"
  "lookup (fs provisioned_world) ''/etc/hosts'' = Some (File (''127.0.0.1 localhost'' @ [LF]))"
  "lookup (fs provisioned_world) ''/etc/hosts.tmp'' \<noteq> Some Dir"
  "\<forall>line \<in> set (iter_lines (universal_newlines (''127.0.0.1 localhost'' @ [LF]))).
     \<not> sublist (''127.0.0.1    '' @ ''svc.example.com'') line"
  by code_simp+

theorem interrupted_activation_restores_lines_witness:
  "\<exists>w'. start_deployment interrupted_env ''web'' provisioned_world = (Inr (), w')
      \<and> lookup (fs w') ''/etc/hosts'' =
          Some (File (universal_newlines ((''127.0.0.1 localhost'' @ [LF]) @ [LF])))
      \<and> lookup (fs w') ''/etc/hosts.tmp'' = None"
proof -
  have "proc interrupted_env [''docker-compose'', ''up''] = Interrupted"
    by (simp add: interrupted_env_def)
  with example_activation_ready show ?thesis
    by (rule interrupted_activation_restores_lines)
qed

text \<open>
  C2, as stated, fails on the example installation: no line of the name-resolution file
  contains the registration, the activation is interrupted, and the file ends up one
  newline longer than it was.
\<close>

theorem interrupted_activation_counterexample:
  "filter (sublist ''127.0.0.1    svc.example.com'')
     (iter_lines (universal_newlines (''127.0.0.1 localhost'' @ [LF]))) = []
   \<and> fs provisioned_world [''/'', ''etc'', ''hosts''] =
       Some (File (''127.0.0.1 localhost'' @ [LF]))
   \<and> fst (start_deployment interrupted_env ''web'' provisioned_world) = Inr ()
   \<and> fs (snd (start_deployment interrupted_env ''web'' provisioned_world))
         [''/'', ''etc'', ''hosts''] = Some (File (''127.0.0.1 localhost'' @ [LF, LF]))"
  by code_simp

text \<open>
  The deployment name \<open>ghost/../web\<close> names no deployment on the example installation,
  where there is no directory \<open>ghost\<close>: activation exits at the check of the two files,
  before the name-resolution file is opened.
\<close>

lemma activation_through_absent_directory:
  "fst (start_deployment interrupted_env ''ghost/../web'' provisioned_world) =
     Inl (SystemExit 1)
   \<and> stdout (snd (start_deployment interrupted_env ''ghost/../web'' provisioned_world)) =
       [''Starting the deployment ghost/../web'', ''Provided deployment does not exists'',
        ''Error: missing file deployments/ghost/../web/docker-compose.yaml!'']
   \<and> lookup (fs (snd (start_deployment interrupted_env ''ghost/../web'' provisioned_world)))
         ''/etc/hosts'' = Some (File (''127.0.0.1 localhost'' @ [LF]))"
  by code_simp

text \<open>
  C1 on the example installation. When the child process exits, with status 0 or with
  status 1, the handler does not run: activation returns, or raises
  \<open>CalledProcessError\<close>, and the registration is still the last line of the
  name-resolution file.
\<close>

theorem registration_left_after_child_exit:
  "fst (start_deployment example_env ''web'' provisioned_world) = Inr ()
   \<and> fs (snd (start_deployment example_env ''web'' provisioned_world))
         [''/'', ''etc'', ''hosts''] =
       Some (File (''127.0.0.1 localhost'' @ [LF, LF] @ ''127.0.0.1    svc.example.com''))
   \<and> fst (start_deployment failing_env ''web'' provisioned_world) =
       Inl (CalledProcessError 1 [''docker-compose'', ''up''])
   \<and> fs (snd (start_deployment failing_env ''web'' provisioned_world))
         [''/'', ''etc'', ''hosts''] =
       Some (File (''127.0.0.1 localhost'' @ [LF, LF] @ ''127.0.0.1    svc.example.com''))"
  by code_simp
end
